theory Spec2Isabelle
  imports Main "HOL-Library.Word" "HOL-Library.Sublist"
begin

unbundle bit_operations_syntax

section \<open>The power monitor plugin (src/power.c)\<close>

text \<open>
  A shallow embedding of \<^verbatim>\<open>power.c\<close>. A C \<^verbatim>\<open>int\<close> is a 32-bit word, read signed
  with \<open>sint\<close> where the code compares it. A C string is the list of its characters
  before the terminating NUL; a buffer the code writes NUL into is a list that
  holds the NUL, and \<open>c_str\<close> reads it as a C string. A file is the list of its bytes.
  Calls into the panel and GTK are recorded as a list of \<open>sink\<close> events, in call order.
  Message texts are the untranslated ones (the gettext lookup is the identity).
\<close>

subsection \<open>Types and constants\<close>

type_synonym c_int = "32 word"
type_synonym guint = "32 word"
type_synonym handle = nat

abbreviation NUL :: char where "NUL \<equiv> CHR 0x00"
abbreviation NL :: char where "NL \<equiv> CHR 0x0A"

abbreviation POWER_PATH :: string where "POWER_PATH \<equiv> ''/proc/device-tree/chosen/power/''"
abbreviation WARN_FILE :: string where "WARN_FILE \<equiv> ''/proc/device-tree/chosen/user-warnings''"

abbreviation ICON_LOW_VOLTAGE :: c_int where "ICON_LOW_VOLTAGE \<equiv> 0x01"
abbreviation ICON_OVER_CURRENT :: c_int where "ICON_OVER_CURRENT \<equiv> 0x02"
abbreviation ICON_BROWNOUT :: c_int where "ICON_BROWNOUT \<equiv> 0x04"

abbreviation MEM_WARN_THRESHOLD :: int where "MEM_WARN_THRESHOLD \<equiv> 2048"
abbreviation RES_HEIGHT_THRESHOLD :: int where "RES_HEIGHT_THRESHOLD \<equiv> 1200"

text \<open>The fields of \<^verbatim>\<open>PowerPlugin\<close> that \<^verbatim>\<open>power.c\<close> reads or writes after the widgets are built.\<close>

record PowerPlugin =
  show_icon :: c_int
  last_oc :: c_int
  udev :: "handle option"
  udev_mon_oc :: "handle option"
  udev_mon_lv :: "handle option"
  overcurrent_id :: guint
  lowvoltage_id :: guint
  startup_id :: guint

text \<open>What the plugin asks of the panel and of GTK.\<close>

datatype sink =
    Notify string           \<comment> \<open>\<^verbatim>\<open>wrap_notify\<close>\<close>
  | Critical string         \<comment> \<open>\<^verbatim>\<open>wrap_critical\<close>\<close>
  | SetTaskbarIcon string   \<comment> \<open>\<^verbatim>\<open>wrap_set_taskbar_icon\<close>\<close>
  | SetSensitive bool       \<comment> \<open>\<^verbatim>\<open>gtk_widget_set_sensitive\<close>\<close>
  | Hide                    \<comment> \<open>\<^verbatim>\<open>gtk_widget_hide\<close>\<close>
  | ShowAll                 \<comment> \<open>\<^verbatim>\<open>gtk_widget_show_all\<close>\<close>
  | SetTooltip string       \<comment> \<open>\<^verbatim>\<open>gtk_widget_set_tooltip_text\<close>\<close>

text \<open>The ways a call can leave defined behaviour.\<close>

datatype fault =
    NullPointer     \<comment> \<open>a NULL string handed to \<^verbatim>\<open>sscanf\<close>\<close>
  | OutOfBounds     \<comment> \<open>a write before the start of a buffer\<close>
  | UseAfterFree    \<comment> \<open>a read of a context that \<^verbatim>\<open>g_free\<close> has released\<close>

type_synonym outcome = "fault + (PowerPlugin \<times> sink list)"

subsection \<open>C strings\<close>

definition c_str :: "string \<Rightarrow> string" where
  "c_str buf = takeWhile (\<lambda>c. c \<noteq> NUL) buf"

subsection \<open>update_icon\<close>

text \<open>The \<^verbatim>\<open>g_strconcat\<close> of lines 289-291.\<close>

definition tooltip_concat :: "c_int \<Rightarrow> string" where
  "tooltip_concat si =
     (if si AND ICON_LOW_VOLTAGE \<noteq> 0 then ''PSU low voltage detected\<newline>'' else '''') @
     (if si AND ICON_OVER_CURRENT \<noteq> 0 then ''USB over current detected\<newline>'' else '''') @
     (if si AND ICON_BROWNOUT \<noteq> 0 then ''Low power reset has occurred\<newline>'' else '''')"

text \<open>
  Line 292 writes NUL at index \<^verbatim>\<open>strlen (tooltip) - 1\<close>; on an empty string that index
  is before the buffer. GTK then reads the buffer as a C string.
\<close>

definition update_icon :: "PowerPlugin \<Rightarrow> fault + sink list" where
  "update_icon pt =
     (let out = [SetTaskbarIcon ''under-volt'', SetSensitive (show_icon pt \<noteq> 0)] in
      if \<not> (show_icon pt \<noteq> 0) then Inr (out @ [Hide])
      else
        let tooltip = tooltip_concat (show_icon pt) in
        if length tooltip = 0 then Inl OutOfBounds
        else Inr (out @ [ShowAll,
                         SetTooltip (c_str ((tooltip @ [NUL])[length tooltip - 1 := NUL]))]))"

definition power_update_display :: "PowerPlugin \<Rightarrow> outcome" where
  "power_update_display pt =
     (case update_icon pt of Inl e \<Rightarrow> Inl e | Inr out \<Rightarrow> Inr (pt, out))"

subsection \<open>The C library and GLib calls the code makes\<close>

text \<open>\<^verbatim>\<open>fgetc\<close> on the bytes left in a stream: the byte as a non-negative int, or EOF (-1).\<close>

fun fgetc :: "string \<Rightarrow> int \<times> string" where
  "fgetc [] = (- 1, [])"
| "fgetc (c # cs) = (of_char c, cs)"

text \<open>
  \<^verbatim>\<open>getline\<close>: the next line with its line break (the rest of the stream when no line
  break is left), and the stream after it; \<open>None\<close> is the return value -1 at end of file.
\<close>

fun getline :: "string \<Rightarrow> (string \<times> string) option" where
  "getline [] = None"
| "getline (c # cs) =
     (if c = NL then Some ([c], cs)
      else case getline cs of None \<Rightarrow> Some ([c], []) | Some (l, r) \<Rightarrow> Some (c # l, r))"

text \<open>\<^verbatim>\<open>strcmp\<close> and \<^verbatim>\<open>strncmp\<close>, up to the sign of the result (all that C promises).\<close>

fun strcmp :: "string \<Rightarrow> string \<Rightarrow> int" where
  "strcmp [] [] = 0"
| "strcmp [] (c2 # s2) = - 1"
| "strcmp (c1 # s1) [] = 1"
| "strcmp (c1 # s1) (c2 # s2) =
     (if c1 = c2 then strcmp s1 s2
      else if (of_char c1 :: nat) < of_char c2 then - 1 else 1)"

fun strncmp :: "string \<Rightarrow> string \<Rightarrow> nat \<Rightarrow> int" where
  "strncmp s1 s2 0 = 0"
| "strncmp [] [] (Suc n) = 0"
| "strncmp [] (c2 # s2) (Suc n) = - 1"
| "strncmp (c1 # s1) [] (Suc n) = 1"
| "strncmp (c1 # s1) (c2 # s2) (Suc n) =
     (if c1 = c2 then strncmp s1 s2 n
      else if (of_char c1 :: nat) < of_char c2 then - 1 else 1)"

text \<open>\<^verbatim>\<open>g_strcmp0\<close> accepts NULL: NULL sorts before every string and equals itself.\<close>

fun g_strcmp0 :: "string option \<Rightarrow> string option \<Rightarrow> int" where
  "g_strcmp0 None None = 0"
| "g_strcmp0 None (Some str2) = - 1"
| "g_strcmp0 (Some str1) None = 1"
| "g_strcmp0 (Some str1) (Some str2) = strcmp str1 str2"

text \<open>The \<^verbatim>\<open>%s\<close> conversion of \<^verbatim>\<open>g_strdup_printf\<close>; glibc prints a NULL argument as (null).\<close>

fun printf_s :: "string option \<Rightarrow> string" where
  "printf_s None = ''(null)''"
| "printf_s (Some s) = s"

definition isspace :: "char \<Rightarrow> bool" where
  "isspace c = (c \<in> set [CHR '' '', CHR 0x09, CHR 0x0A, CHR 0x0B, CHR 0x0C, CHR 0x0D])"

text \<open>\<^verbatim>\<open>g_ascii_isspace\<close> leaves the vertical tab out.\<close>

definition g_ascii_isspace :: "char \<Rightarrow> bool" where
  "g_ascii_isspace c = (c \<in> set [CHR '' '', CHR 0x09, CHR 0x0A, CHR 0x0C, CHR 0x0D])"

definition isdigit :: "char \<Rightarrow> bool" where
  "isdigit c = (48 \<le> (of_char c :: nat) \<and> (of_char c :: nat) \<le> 57)"

text \<open>\<^verbatim>\<open>g_strstrip\<close>: leading and trailing white space removed.\<close>

definition g_strstrip :: "string \<Rightarrow> string" where
  "g_strstrip s = rev (dropWhile g_ascii_isspace (rev (dropWhile g_ascii_isspace s)))"

fun digits_value :: "int \<Rightarrow> string \<Rightarrow> int" where
  "digits_value acc [] = acc"
| "digits_value acc (c # cs) = digits_value (acc * 10 + (of_char c - 48)) cs"

text \<open>
  The \<^verbatim>\<open>%d\<close> conversion of \<^verbatim>\<open>sscanf\<close>: white space is skipped, then an optional sign
  and at least one decimal digit are read. The result is the number read and the
  input left, or \<open>None\<close> when the input does not match.
\<close>

definition scan_d :: "string \<Rightarrow> (int \<times> string) option" where
  "scan_d s =
     (let s1 = dropWhile isspace s;
          neg = (s1 \<noteq> [] \<and> hd s1 = CHR ''-'');
          s2 = (if s1 \<noteq> [] \<and> (hd s1 = CHR ''-'' \<or> hd s1 = CHR ''+'') then tl s1 else s1);
          ds = takeWhile isdigit s2
      in if ds = [] then None
         else Some (if neg then - digits_value 0 ds else digits_value 0 ds,
                    dropWhile isdigit s2))"

text \<open>
  The number is stored into an \<^verbatim>\<open>int\<close> as glibc does on a 64-bit target: \<^verbatim>\<open>strtol\<close>
  clamps it to \<^verbatim>\<open>long\<close>, and the store keeps the low 32 bits.
\<close>

definition store_int :: "int \<Rightarrow> c_int" where
  "store_int v = word_of_int (max (- (2 ^ 63)) (min (2 ^ 63 - 1) v))"

text \<open>\<^verbatim>\<open>sscanf (s, "%d", &v)\<close>: \<open>Some v\<close> when the call returns 1.\<close>

definition sscanf_d :: "string \<Rightarrow> c_int option" where
  "sscanf_d s = (case scan_d s of None \<Rightarrow> None | Some (v, rest) \<Rightarrow> Some (store_int v))"

text \<open>\<^verbatim>\<open>sscanf (s, "%dx%d", &w, &h)\<close>: \<open>Some (w, h)\<close> when the call returns 2.\<close>

definition sscanf_dxd :: "string \<Rightarrow> (c_int \<times> c_int) option" where
  "sscanf_dxd s =
     (case scan_d s of
        None \<Rightarrow> None
      | Some (w, rest) \<Rightarrow>
          (case rest of
             [] \<Rightarrow> None
           | c # rest' \<Rightarrow>
               if c = CHR ''x'' then
                 (case scan_d rest' of
                    None \<Rightarrow> None
                  | Some (h, rest'') \<Rightarrow> Some (store_int w, store_int h))
               else None))"

subsection \<open>The world outside the plugin\<close>

record env =
  fopen :: "string \<Rightarrow> string option"   \<comment> \<open>the bytes of the file; \<open>None\<close> when \<^verbatim>\<open>fopen\<close> returns NULL\<close>
  access :: "string \<Rightarrow> bool"           \<comment> \<open>\<^verbatim>\<open>access (path, F_OK)\<close> returns 0\<close>
  system :: "string \<Rightarrow> int"            \<comment> \<open>the status \<^verbatim>\<open>system\<close> returns\<close>
  popen :: "string \<Rightarrow> string option"   \<comment> \<open>the command's output; \<open>None\<close> when \<^verbatim>\<open>popen\<close> returns NULL\<close>

record udev_device =
  action :: "string option"                   \<comment> \<open>\<^verbatim>\<open>udev_device_get_action\<close>, NULL when there is none\<close>
  sysname :: string                           \<comment> \<open>\<^verbatim>\<open>udev_device_get_sysname\<close>\<close>
  syspath :: string                           \<comment> \<open>\<^verbatim>\<open>udev_device_get_syspath\<close>\<close>
  property_value :: "string \<Rightarrow> string option"  \<comment> \<open>\<^verbatim>\<open>udev_device_get_property_value\<close>\<close>

subsection \<open>Tests\<close>

text \<open>
  Lines 92-94 and 107-108: \<^verbatim>\<open>cptr\<close> points at the four bytes of \<^verbatim>\<open>val\<close>, and the loop
  stores one \<^verbatim>\<open>fgetc\<close> result, cut to a byte, at \<^verbatim>\<open>cptr[i]\<close> for i = 3, 2, 1, 0.
\<close>

fun read_bytes :: "nat \<Rightarrow> 8 word list \<Rightarrow> string \<Rightarrow> 8 word list" where
  "read_bytes 0 cptr fp = cptr"
| "read_bytes (Suc i) cptr fp =
     (case fgetc fp of (c, fp') \<Rightarrow> read_bytes i (cptr[i := word_of_int c]) fp')"

text \<open>The \<^verbatim>\<open>int\<close> that four bytes in memory hold on the little-endian target.\<close>

definition int_of_bytes :: "8 word list \<Rightarrow> c_int" where
  "int_of_bytes cptr =
     ucast (cptr ! 0) OR push_bit 8 (ucast (cptr ! 1)) OR
     push_bit 16 (ucast (cptr ! 2)) OR push_bit 24 (ucast (cptr ! 3))"

text \<open>
  The read that \<^verbatim>\<open>check_psu\<close> (lines 87-94) and \<^verbatim>\<open>check_brownout\<close> (lines 102-108)
  both spell out: open the file, fill \<^verbatim>\<open>val\<close>. \<open>None\<close> when the file does not open.
\<close>

definition read_be_u32 :: "env \<Rightarrow> string \<Rightarrow> c_int option" where
  "read_be_u32 e path =
     (case fopen e path of
        None \<Rightarrow> None
      | Some fp \<Rightarrow> Some (int_of_bytes (read_bytes 4 [0, 0, 0, 0] fp)))"

definition check_psu :: "env \<Rightarrow> PowerPlugin \<Rightarrow> outcome" where
  "check_psu e pt =
     (if system e ''raspi-config nonint is_cmfive'' = 0 then Inr (pt, [])
      else
        case read_be_u32 e (POWER_PATH @ ''max_current'') of
          None \<Rightarrow> Inr (pt, [])
        | Some val \<Rightarrow>
            if sint val < 5000 then
              Inr (pt, [Notify ''This power supply is not capable of supplying 5A\<newline>Power to peripherals will be restricted''])
            else Inr (pt, []))"

definition check_brownout :: "env \<Rightarrow> PowerPlugin \<Rightarrow> outcome" where
  "check_brownout e pt =
     (case read_be_u32 e (POWER_PATH @ ''power_reset'') of
        None \<Rightarrow> Inr (pt, [])
      | Some val \<Rightarrow>
          if val AND 0x02 \<noteq> 0 then
            (let pt' = pt\<lparr>show_icon := show_icon pt OR ICON_BROWNOUT\<rparr> in
             case update_icon pt' of
               Inl f \<Rightarrow> Inl f
             | Inr icon \<Rightarrow>
                 Inr (pt', Critical ''Reset due to low power event\<newline>Please check your power supply'' # icon))
          else Inr (pt, []))"

text \<open>
  The loop of \<^verbatim>\<open>check_user_warnings\<close>: one notification per line, until \<^verbatim>\<open>getline\<close>
  returns -1.
\<close>

function warn_lines :: "string \<Rightarrow> sink list" where
  "warn_lines fp =
     (case getline fp of
        None \<Rightarrow> []
      | Some (buf, fp') \<Rightarrow> Notify (g_strstrip (c_str buf)) # warn_lines fp')"
  by pat_completeness auto
termination
proof (relation "measure length")
  have shorter: "getline s = Some (l, r) \<Longrightarrow> length r < length s" for s l r
    by (induction s arbitrary: l r) (auto split: if_splits option.splits)
  fix fp x2 buf fp'
  assume "getline fp = Some x2" and "(buf, fp') = x2"
  then show "(fp', fp) \<in> measure length"
    using shorter [of fp buf fp'] by simp
qed simp

definition check_user_warnings :: "env \<Rightarrow> PowerPlugin \<Rightarrow> outcome" where
  "check_user_warnings e pt =
     (if access e WARN_FILE then
        (case fopen e WARN_FILE of
           None \<Rightarrow> Inr (pt, [])
         | Some fp \<Rightarrow> Inr (pt, warn_lines fp))
      else Inr (pt, []))"

text \<open>
  The loop of \<^verbatim>\<open>get_string\<close>: \<^verbatim>\<open>res\<close> walks the buffer up to its first NUL and overwrites
  every white-space character it passes with NUL.
\<close>

fun blank_spaces :: "string \<Rightarrow> string" where
  "blank_spaces [] = []"
| "blank_spaces (c # cs) =
     (if c = NUL then c # cs
      else (if g_ascii_isspace c then NUL else c) # blank_spaces cs)"

text \<open>\<^verbatim>\<open>g_strdup (line)\<close> then copies the buffer as a C string.\<close>

definition get_string :: "env \<Rightarrow> string \<Rightarrow> string option" where
  "get_string e cmd =
     (case popen e cmd of
        None \<Rightarrow> None
      | Some fp \<Rightarrow>
          (case getline fp of
             None \<Rightarrow> None
           | Some (line, fp') \<Rightarrow> Some (c_str (blank_spaces (line @ [NUL])))))"

abbreviation TOTAL_MEM_CMD :: string where
  "TOTAL_MEM_CMD \<equiv> ''vcgencmd get_config total_mem | cut -d = -f 2''"
abbreviation HDMI_A_1_CMD :: string where
  "HDMI_A_1_CMD \<equiv> ''wlr-randr | sed -n '' @ [CHR 0x27] @ ''/^HDMI-A-1/,/Position/{/current/p}'' @ [CHR 0x27] @
     '' | sed '' @ [CHR 0x27] @ ''s/ //g'' @ [CHR 0x27] @ '' | sed '' @ [CHR 0x27] @ ''s/px.*//'' @ [CHR 0x27]"
abbreviation HDMI_A_2_CMD :: string where
  "HDMI_A_2_CMD \<equiv> ''wlr-randr | sed -n '' @ [CHR 0x27] @ ''/^HDMI-A-2/,/Position/{/current/p}'' @ [CHR 0x27] @
     '' | sed '' @ [CHR 0x27] @ ''s/ //g'' @ [CHR 0x27] @ '' | sed '' @ [CHR 0x27] @ ''s/px.*//'' @ [CHR 0x27]"

text \<open>Lines 172-178 and 180-186: one display output raises \<^verbatim>\<open>max_h\<close> or leaves it.\<close>

definition probe_height :: "env \<Rightarrow> string \<Rightarrow> c_int \<Rightarrow> c_int" where
  "probe_height e cmd max_h =
     (case get_string e cmd of
        None \<Rightarrow> max_h
      | Some res \<Rightarrow>
          (case sscanf_dxd res of
             None \<Rightarrow> max_h
           | Some (width, height) \<Rightarrow> if sint height > sint max_h then height else max_h))"

definition check_memres :: "env \<Rightarrow> PowerPlugin \<Rightarrow> outcome" where
  "check_memres e pt =
     (case get_string e TOTAL_MEM_CMD of
        None \<Rightarrow> Inr (pt, [])
      | Some res \<Rightarrow>
          (case sscanf_d res of
             None \<Rightarrow> Inr (pt, [])
           | Some mem \<Rightarrow>
               if sint mem < 256 \<or> sint mem > MEM_WARN_THRESHOLD then Inr (pt, [])
               else
                 let max_h = 0;
                     max_h = probe_height e HDMI_A_1_CMD max_h;
                     max_h = probe_height e HDMI_A_2_CMD max_h
                 in if sint max_h > RES_HEIGHT_THRESHOLD then
                      Inr (pt, [Notify ''High display resolution is using large amounts of memory.\<newline>Consider reducing screen resolution.''])
                    else Inr (pt, [])))"

subsection \<open>Monitoring callbacks\<close>

text \<open>One call after another on the same context; a fault ends the run.\<close>

definition and_then :: "outcome \<Rightarrow> (PowerPlugin \<Rightarrow> outcome) \<Rightarrow> outcome" where
  "and_then r f =
     (case r of
        Inl x \<Rightarrow> Inl x
      | Inr (pt, out) \<Rightarrow>
          (case f pt of Inl x \<Rightarrow> Inl x | Inr (pt', out') \<Rightarrow> Inr (pt', out @ out')))"

definition startup_checks :: "env \<Rightarrow> PowerPlugin \<Rightarrow> outcome" where
  "startup_checks e pt =
     and_then (and_then (and_then (and_then
       (check_psu e pt)
       (check_brownout e))
       (check_memres e))
       (check_user_warnings e))
       (\<lambda>pt. Inr (pt\<lparr>startup_id := 0\<rparr>, []))"

text \<open>
  The device that \<^verbatim>\<open>udev_monitor_receive_device\<close> returns is the argument \<open>received\<close>
  (\<open>None\<close> for NULL). Both callbacks return \<^verbatim>\<open>G_SOURCE_CONTINUE\<close> on every path.
\<close>

definition cb_overcurrent_fd :: "env \<Rightarrow> udev_device option \<Rightarrow> PowerPlugin \<Rightarrow> outcome" where
  "cb_overcurrent_fd e received pt =
     (case received of
        None \<Rightarrow> Inr (pt, [])
      | Some dev \<Rightarrow>
          if g_strcmp0 (action dev) (Some ''change'') = 0 then
            (let path = ''/sys/'' @ printf_s (property_value dev ''OVER_CURRENT_PORT'') @ ''/disable'' in
             case fopen e path of
               None \<Rightarrow> Inr (pt, [])
             | Some fp \<Rightarrow>
                 if fst (fgetc fp) = 0x31 then
                   (case property_value dev ''OVER_CURRENT_COUNT'' of
                      None \<Rightarrow> Inl NullPointer
                    | Some count \<Rightarrow>
                        (case sscanf_d count of
                           None \<Rightarrow> Inr (pt, [])
                         | Some val \<Rightarrow>
                             if val \<noteq> last_oc pt then
                               (let pt' = pt\<lparr>show_icon := show_icon pt OR ICON_OVER_CURRENT\<rparr> in
                                case update_icon pt' of
                                  Inl f \<Rightarrow> Inl f
                                | Inr icon \<Rightarrow>
                                    Inr (pt'\<lparr>last_oc := val\<rparr>,
                                         Critical ''USB overcurrent\<newline>Please check your connected USB devices'' # icon))
                             else Inr (pt, [])))
                 else Inr (pt, []))
          else Inr (pt, []))"

definition cb_lowvoltage_fd :: "env \<Rightarrow> udev_device option \<Rightarrow> PowerPlugin \<Rightarrow> outcome" where
  "cb_lowvoltage_fd e received pt =
     (case received of
        None \<Rightarrow> Inr (pt, [])
      | Some dev \<Rightarrow>
          if g_strcmp0 (action dev) (Some ''change'') = 0 \<and> strncmp (sysname dev) ''hwmon'' 5 = 0 then
            (let path = syspath dev @ ''/in0_lcrit_alarm'' in
             case fopen e path of
               None \<Rightarrow> Inr (pt, [])
             | Some fp \<Rightarrow>
                 if fst (fgetc fp) = 0x31 then
                   (let pt' = pt\<lparr>show_icon := show_icon pt OR ICON_LOW_VOLTAGE\<rparr> in
                    case update_icon pt' of
                      Inl f \<Rightarrow> Inl f
                    | Inr icon \<Rightarrow>
                        Inr (pt', Critical ''Low voltage warning\<newline>Please check your power supply'' # icon))
                 else Inr (pt, []))
          else Inr (pt, []))"

subsection \<open>Set-up and tear-down\<close>

text \<open>What the calls of \<^verbatim>\<open>power_init\<close> return.\<close>

record init_env =
  is_pi :: bool
  udev_new :: "handle option"
  monitor_oc_new :: "handle option"   \<comment> \<open>the first \<^verbatim>\<open>udev_monitor_new_from_netlink\<close>\<close>
  monitor_lv_new :: "handle option"   \<comment> \<open>the second\<close>
  oc_source_id :: guint               \<comment> \<open>\<^verbatim>\<open>g_unix_fd_add\<close> for the overcurrent monitor\<close>
  lv_source_id :: guint               \<comment> \<open>\<^verbatim>\<open>g_unix_fd_add\<close> for the low-voltage monitor\<close>
  idle_source_id :: guint             \<comment> \<open>\<^verbatim>\<open>g_idle_add\<close>\<close>

text \<open>Lines 337-375; \<open>pt0\<close> is the context as the caller allocated it.\<close>

definition power_init :: "init_env \<Rightarrow> PowerPlugin \<Rightarrow> PowerPlugin" where
  "power_init ie pt0 =
     (let pt = pt0\<lparr>show_icon := 0, udev_mon_oc := None, udev_mon_lv := None, udev := None,
                   overcurrent_id := 0, lowvoltage_id := 0, startup_id := 0\<rparr>
      in if is_pi ie then
           (let pt = pt\<lparr>last_oc := - 1, udev := udev_new ie\<rparr>;
                pt = pt\<lparr>udev_mon_oc := monitor_oc_new ie\<rparr>;
                pt = (if udev_mon_oc pt \<noteq> None then pt\<lparr>overcurrent_id := oc_source_id ie\<rparr> else pt);
                pt = pt\<lparr>udev_mon_lv := monitor_lv_new ie\<rparr>;
                pt = (if udev_mon_lv pt \<noteq> None then pt\<lparr>lowvoltage_id := lv_source_id ie\<rparr> else pt)
            in pt\<lparr>startup_id := idle_source_id ie\<rparr>)
         else pt)"

text \<open>
  The contexts that are allocated, by address; \<^verbatim>\<open>g_free\<close> removes one. The calls that
  give a resource back are recorded in call order.
\<close>

type_synonym heap = "nat \<Rightarrow> PowerPlugin option"

datatype release =
    SourceRemove guint    \<comment> \<open>\<^verbatim>\<open>g_source_remove\<close>\<close>
  | MonitorUnref handle   \<comment> \<open>\<^verbatim>\<open>udev_monitor_unref\<close>\<close>
  | UdevUnref handle      \<comment> \<open>\<^verbatim>\<open>udev_unref\<close>\<close>
  | Free nat              \<comment> \<open>\<^verbatim>\<open>g_free\<close>\<close>

fun unref :: "(handle \<Rightarrow> release) \<Rightarrow> handle option \<Rightarrow> release list" where
  "unref f None = []"
| "unref f (Some h) = [f h]"

definition power_destructor :: "heap \<Rightarrow> nat \<Rightarrow> fault + (heap \<times> release list)" where
  "power_destructor h user_data =
     (case h user_data of
        None \<Rightarrow> Inl UseAfterFree
      | Some pt \<Rightarrow>
          (let r1 = (if overcurrent_id pt > 0 then [SourceRemove (overcurrent_id pt)] else []);
               pt = pt\<lparr>overcurrent_id := 0\<rparr>;
               r2 = (if lowvoltage_id pt > 0 then [SourceRemove (lowvoltage_id pt)] else []);
               pt = pt\<lparr>lowvoltage_id := 0\<rparr>;
               r3 = (if startup_id pt > 0 then [SourceRemove (startup_id pt)] else []);
               pt = pt\<lparr>startup_id := 0\<rparr>;
               r4 = unref MonitorUnref (udev_mon_oc pt);
               pt = pt\<lparr>udev_mon_oc := None\<rparr>;
               r5 = unref MonitorUnref (udev_mon_lv pt);
               pt = pt\<lparr>udev_mon_lv := None\<rparr>;
               r6 = unref UdevUnref (udev pt);
               pt = pt\<lparr>udev := None\<rparr>
           in Inr (h(user_data := None), r1 @ r2 @ r3 @ r4 @ r5 @ r6 @ [Free user_data])))"

subsection \<open>The operations on a live context\<close>

datatype operation =
    OvercurrentEvent "udev_device option"
  | LowvoltageEvent "udev_device option"
  | StartupChecks
  | CheckPsu
  | CheckBrownout
  | CheckMemres
  | CheckUserWarnings
  | UpdateDisplay

fun perform :: "env \<Rightarrow> operation \<Rightarrow> PowerPlugin \<Rightarrow> outcome" where
  "perform e (OvercurrentEvent received) pt = cb_overcurrent_fd e received pt"
| "perform e (LowvoltageEvent received) pt = cb_lowvoltage_fd e received pt"
| "perform e StartupChecks pt = startup_checks e pt"
| "perform e CheckPsu pt = check_psu e pt"
| "perform e CheckBrownout pt = check_brownout e pt"
| "perform e CheckMemres pt = check_memres e pt"
| "perform e CheckUserWarnings pt = check_user_warnings e pt"
| "perform e UpdateDisplay pt = power_update_display pt"

text \<open>The main loop runs one operation after another, each in the world as it then is.\<close>

fun run :: "(env \<times> operation) list \<Rightarrow> PowerPlugin \<Rightarrow> outcome" where
  "run [] pt = Inr (pt, [])"
| "run ((e, op) # rest) pt = and_then (perform e op pt) (run rest)"

text \<open>
  The flag word holds hazard bits only. An overcurrent event carries the counter
  property (the kernel sends port and counter together), so \<^verbatim>\<open>sscanf\<close> is not handed NULL.
\<close>

definition only_flags :: "c_int \<Rightarrow> bool" where
  "only_flags w \<longleftrightarrow> w AND (ICON_LOW_VOLTAGE OR ICON_OVER_CURRENT OR ICON_BROWNOUT) = w"

fun has_count :: "env \<times> operation \<Rightarrow> bool" where
  "has_count (e, OvercurrentEvent (Some dev)) =
     (property_value dev ''OVER_CURRENT_COUNT'' \<noteq> None)"
| "has_count (e, other) = True"

subsection \<open>The tooltip as the specification words it\<close>

datatype hazard = LowVoltage | OverCurrent | Brownout

fun mask :: "hazard \<Rightarrow> c_int" where
  "mask LowVoltage = ICON_LOW_VOLTAGE"
| "mask OverCurrent = ICON_OVER_CURRENT"
| "mask Brownout = ICON_BROWNOUT"

definition flags_of :: "hazard set \<Rightarrow> c_int" where
  "flags_of S =
     (if LowVoltage \<in> S then mask LowVoltage else 0) OR
     (if OverCurrent \<in> S then mask OverCurrent else 0) OR
     (if Brownout \<in> S then mask Brownout else 0)"

fun canned_line :: "hazard \<Rightarrow> string" where
  "canned_line LowVoltage = ''PSU low voltage detected''"
| "canned_line OverCurrent = ''USB over current detected''"
| "canned_line Brownout = ''Low power reset has occurred''"

text \<open>
  One canned line per set flag, in the order LowVoltage, OverCurrent, Brownout, each
  followed by a line break, and the final line break dropped.
\<close>

definition tooltip_spec :: "hazard set \<Rightarrow> string" where
  "tooltip_spec S =
     butlast (concat (map (\<lambda>h. canned_line h @ [NL])
                (filter (\<lambda>h. h \<in> S) [LowVoltage, OverCurrent, Brownout])))"

subsection \<open>Reading the events a call emits\<close>

definition criticals :: "sink list \<Rightarrow> string list" where
  "criticals out = concat (map (\<lambda>x. case x of Critical m \<Rightarrow> [m] | _ \<Rightarrow> []) out)"

definition advisories :: "sink list \<Rightarrow> string list" where
  "advisories out = concat (map (\<lambda>x. case x of Notify m \<Rightarrow> [m] | _ \<Rightarrow> []) out)"

text \<open>What \<open>update_icon\<close> emits when the icon is shown with flag word \<open>si\<close>.\<close>

definition icon_shown :: "c_int \<Rightarrow> sink list" where
  "icon_shown si =
     [SetTaskbarIcon ''under-volt'', SetSensitive True, ShowAll,
      SetTooltip (butlast (tooltip_concat si))]"

text \<open>The hazard flags that are set in a context.\<close>

definition hazards :: "PowerPlugin \<Rightarrow> hazard set" where
  "hazards pt = {h. show_icon pt AND mask h \<noteq> 0}"

subsection \<open>The 32-bit value as the specification words it\<close>

text \<open>\<^verbatim>\<open>(b0<<24)|(b1<<16)|(b2<<8)|b3\<close>\<close>

definition be_u32 :: "char \<Rightarrow> char \<Rightarrow> char \<Rightarrow> char \<Rightarrow> c_int" where
  "be_u32 b0 b1 b2 b3 =
     push_bit 24 (of_char b0) OR push_bit 16 (of_char b1) OR push_bit 8 (of_char b2) OR of_char b3"

definition byte_of :: "char \<Rightarrow> 8 word" where
  "byte_of b = word_of_int (of_char b)"

subsection \<open>The confirmed alarms as the specification words them\<close>

text \<open>The first byte of the file at \<open>path\<close> is the character 1.\<close>

definition first_byte_is_1 :: "env \<Rightarrow> string \<Rightarrow> bool" where
  "first_byte_is_1 e path =
     (case fopen e path of None \<Rightarrow> False | Some [] \<Rightarrow> False | Some (b # rest) \<Rightarrow> b = CHR ''1'')"

definition lv_alarm :: "env \<Rightarrow> udev_device \<Rightarrow> bool" where
  "lv_alarm e dev \<longleftrightarrow>
     action dev = Some ''change'' \<and> prefix ''hwmon'' (sysname dev) \<and>
     first_byte_is_1 e (syspath dev @ ''/in0_lcrit_alarm'')"

definition oc_disabled :: "env \<Rightarrow> udev_device \<Rightarrow> bool" where
  "oc_disabled e dev \<longleftrightarrow>
     action dev = Some ''change'' \<and>
     first_byte_is_1 e (''/sys/'' @ printf_s (property_value dev ''OVER_CURRENT_PORT'') @ ''/disable'')"

text \<open>The \<^verbatim>\<open>OVER_CURRENT_COUNT\<close> property parsed as an integer.\<close>

definition oc_count :: "udev_device \<Rightarrow> c_int option" where
  "oc_count dev =
     (case property_value dev ''OVER_CURRENT_COUNT'' of None \<Rightarrow> None | Some count \<Rightarrow> sscanf_d count)"

text \<open>How often a sequence of counters differs from the counter before it.\<close>

fun changes :: "c_int \<Rightarrow> c_int list \<Rightarrow> nat" where
  "changes prev [] = 0"
| "changes prev (c # cs) = (if c \<noteq> prev then 1 else 0) + changes c cs"

abbreviation OC_MESSAGE :: string where
  "OC_MESSAGE \<equiv> ''USB overcurrent\<newline>Please check your connected USB devices''"
abbreviation LV_MESSAGE :: string where
  "LV_MESSAGE \<equiv> ''Low voltage warning\<newline>Please check your power supply''"
abbreviation BROWNOUT_MESSAGE :: string where
  "BROWNOUT_MESSAGE \<equiv> ''Reset due to low power event\<newline>Please check your power supply''"
abbreviation MEMRES_MESSAGE :: string where
  "MEMRES_MESSAGE \<equiv> ''High display resolution is using large amounts of memory.\<newline>Consider reducing screen resolution.''"

subsection \<open>The probe result as the specification words it\<close>

text \<open>The first line of an output, without its line break.\<close>

definition first_line :: "string \<Rightarrow> string" where
  "first_line out = takeWhile (\<lambda>c. c \<noteq> NL) out"

text \<open>All white space stripped from a string.\<close>

definition strip_whitespace :: "string \<Rightarrow> string" where
  "strip_whitespace s = filter (\<lambda>c. \<not> g_ascii_isspace c) s"

text \<open>A string cut at its first white-space or NUL character.\<close>

definition cut_at_whitespace :: "string \<Rightarrow> string" where
  "cut_at_whitespace s = takeWhile (\<lambda>c. c \<noteq> NUL \<and> \<not> g_ascii_isspace c) s"

text \<open>
  The heights of the display outputs whose probe gives a WIDTHxHEIGHT that parses, and
  the largest of them (0 when there is none, and at least 0).
\<close>

definition probed_heights :: "env \<Rightarrow> int list" where
  "probed_heights e =
     concat (map (\<lambda>cmd. case get_string e cmd of
                           None \<Rightarrow> []
                         | Some res \<Rightarrow> (case sscanf_dxd res of None \<Rightarrow> [] | Some (w, h) \<Rightarrow> [sint h]))
                 [HDMI_A_1_CMD, HDMI_A_2_CMD])"

definition max_height :: "env \<Rightarrow> int" where
  "max_height e = fold max (probed_heights e) 0"

subsection \<open>The releases of a tear-down as the specification words them\<close>

text \<open>
  The live handles of a context, in the order unregistering comes before unreferencing:
  the registered sources, the two subscriptions, the event source.
\<close>

definition live_handles :: "PowerPlugin \<Rightarrow> release list" where
  "live_handles pt =
     map SourceRemove (filter (\<lambda>i. i \<noteq> 0) [overcurrent_id pt, lowvoltage_id pt, startup_id pt]) @
     map MonitorUnref (concat (map (case_option [] (\<lambda>x. [x])) [udev_mon_oc pt, udev_mon_lv pt])) @
     map UdevUnref (case_option [] (\<lambda>x. [x]) (udev pt))"

text \<open>A sequence of USB events, each with the world it arrives in, as main-loop work.\<close>

definition oc_events :: "(env \<times> udev_device) list \<Rightarrow> (env \<times> operation) list" where
  "oc_events evs = map (\<lambda>(e, dev). (e, OvercurrentEvent (Some dev))) evs"

subsection \<open>Concrete worlds for the examples\<close>

definition example_env :: "(string \<times> string) list \<Rightarrow> (string \<times> string) list \<Rightarrow> env" where
  "example_env files outputs =
     \<lparr>fopen = map_of files, access = (\<lambda>path. map_of files path \<noteq> None),
      system = (\<lambda>cmd. 1), popen = map_of outputs\<rparr>"

definition example_device ::
  "string \<Rightarrow> string \<Rightarrow> string \<Rightarrow> (string \<times> string) list \<Rightarrow> udev_device" where
  "example_device act name path props =
     \<lparr>action = Some act, sysname = name, syspath = path, property_value = map_of props\<rparr>"

text \<open>A context as \<^verbatim>\<open>g_new0\<close> hands it out, and a set-up on a Raspberry Pi.\<close>

definition zeroed_context :: PowerPlugin where
  "zeroed_context =
     \<lparr>show_icon = 0, last_oc = 0, udev = None, udev_mon_oc = None, udev_mon_lv = None,
      overcurrent_id = 0, lowvoltage_id = 0, startup_id = 0\<rparr>"

definition example_init :: init_env where
  "example_init =
     \<lparr>is_pi = True, udev_new = Some 1, monitor_oc_new = Some 2, monitor_lv_new = Some 3,
      oc_source_id = 11, lv_source_id = 12, idle_source_id = 13\<rparr>"

text \<open>A USB port that is switched off, and a change event for it with a given counter text.\<close>

definition usb_port_env :: env where
  "usb_port_env = example_env [(''/sys/devices/platform/usb1-port1/disable'', ''1\<newline>'')] []"

definition usb_port_event :: "string \<Rightarrow> udev_device" where
  "usb_port_event count =
     example_device ''change'' ''usb1-port1'' ''/sys/devices/platform/usb1-port1''
       [(''OVER_CURRENT_PORT'', ''devices/platform/usb1-port1''), (''OVER_CURRENT_COUNT'', count)]"

text \<open>A world where the memory probe prints \<open>mem\<close> and the first display probe prints \<open>mode\<close>.\<close>

definition display_env :: "string \<Rightarrow> string \<Rightarrow> env" where
  "display_env mem mode = example_env [] [(TOTAL_MEM_CMD, mem), (HDMI_A_1_CMD, mode)]"

section \<open>Properties\<close>

subsection \<open>Flag words\<close>

lemma and_7_split: "(w :: c_int) AND 7 = (w AND 1) OR (w AND 2) OR (w AND 4)"
proof -
  have "(7 :: c_int) = 1 OR 2 OR 4" by simp
  then show ?thesis by (simp only: bit.conj_disj_distrib)
qed

lemma some_flag: "(w :: c_int) AND 7 \<noteq> 0 \<Longrightarrow> w AND 1 \<noteq> 0 \<or> w AND 2 \<noteq> 0 \<or> w AND 4 \<noteq> 0"
  by (auto simp: and_7_split)

lemma flag_nonzero: "(w :: c_int) AND m \<noteq> 0 \<Longrightarrow> w \<noteq> 0"
  by auto

lemma hazard_set_empty:
  "S = {} \<longleftrightarrow> LowVoltage \<notin> S \<and> OverCurrent \<notin> S \<and> Brownout \<notin> S"
proof
  assume "LowVoltage \<notin> S \<and> OverCurrent \<notin> S \<and> Brownout \<notin> S"
  then have "h \<notin> S" for h by (cases h) auto
  then show "S = {}" by blast
qed simp

subsection \<open>The tooltip buffer\<close>

lemma c_str_truncate:
  assumes "NUL \<notin> set s" and "s \<noteq> []"
  shows "c_str ((s @ [NUL])[length s - Suc 0 := NUL]) = butlast s"
proof -
  obtain t c where s: "s = t @ [c]"
    using assms(2) by (metis snoc_eq_iff_butlast)
  have "NUL \<notin> set t" using assms(1) s by simp
  then have "takeWhile (\<lambda>c. c \<noteq> NUL) (t @ [NUL, NUL]) = t"
    by (induction t) auto
  then show ?thesis by (simp add: s c_str_def list_update_append)
qed

lemma tooltip_concat_no_NUL: "NUL \<notin> set (tooltip_concat si)"
  by (simp add: tooltip_concat_def)

lemma tooltip_concat_last:
  "tooltip_concat si \<noteq> [] \<Longrightarrow> last (tooltip_concat si) = NL"
  by (simp add: tooltip_concat_def split: if_splits)

lemma tooltip_concat_empty:
  "tooltip_concat si = [] \<longleftrightarrow> si AND 1 = 0 \<and> si AND 2 = 0 \<and> si AND 4 = 0"
  by (simp add: tooltip_concat_def)

lemma update_icon_shown:
  assumes "tooltip_concat (show_icon pt) \<noteq> []"
  shows "update_icon pt =
           Inr [SetTaskbarIcon ''under-volt'', SetSensitive True, ShowAll,
                SetTooltip (butlast (tooltip_concat (show_icon pt)))]"
proof -
  have "show_icon pt \<noteq> 0"
    using assms tooltip_concat_empty [of "show_icon pt"] by auto
  then show ?thesis
    using assms
    by (simp add: update_icon_def Let_def c_str_truncate tooltip_concat_no_NUL)
qed

lemma update_icon_hidden:
  "show_icon pt = 0 \<Longrightarrow>
   update_icon pt = Inr [SetTaskbarIcon ''under-volt'', SetSensitive False, Hide]"
  by (simp add: update_icon_def)

subsection \<open>The icon and its tooltip\<close>

lemma flags_of_bits:
  "flags_of S AND 1 \<noteq> 0 \<longleftrightarrow> LowVoltage \<in> S"
  "flags_of S AND 2 \<noteq> 0 \<longleftrightarrow> OverCurrent \<in> S"
  "flags_of S AND 4 \<noteq> 0 \<longleftrightarrow> Brownout \<in> S"
  by (simp_all add: flags_of_def)

lemma tooltip_concat_flags_of:
  "S \<noteq> {} \<Longrightarrow> butlast (tooltip_concat (flags_of S)) = tooltip_spec S"
  by (cases "LowVoltage \<in> S"; cases "OverCurrent \<in> S"; cases "Brownout \<in> S")
     (simp_all add: hazard_set_empty tooltip_concat_def flags_of_bits tooltip_spec_def)

lemma flags_of_zero: "flags_of S = 0 \<longleftrightarrow> S = {}"
  by (cases "LowVoltage \<in> S"; cases "OverCurrent \<in> S"; cases "Brownout \<in> S")
     (simp_all add: hazard_set_empty flags_of_def)

text \<open>
  C4. For every set of hazard flags, \<open>update_icon\<close> refreshes the glyph, makes the icon
  sensitive and visible exactly when the set is not empty, and then sets the tooltip to
  the canned lines of the set flags in the order LowVoltage, OverCurrent, Brownout, one
  line break between them and none at the end. With no flag it hides the icon and sets
  no tooltip. For LowVoltage and OverCurrent the tooltip is the low-voltage line, a line
  break, the overcurrent line.
\<close>

theorem update_icon_contract:
  "update_icon (pt\<lparr>show_icon := flags_of S\<rparr>) =
     Inr ([SetTaskbarIcon ''under-volt'', SetSensitive (S \<noteq> {})] @
          (if S = {} then [Hide] else [ShowAll, SetTooltip (tooltip_spec S)]))
   \<and> tooltip_spec {LowVoltage, OverCurrent} =
       ''PSU low voltage detected'' @ [NL] @ ''USB over current detected''"
proof (intro conjI)
  show "update_icon (pt\<lparr>show_icon := flags_of S\<rparr>) =
     Inr ([SetTaskbarIcon ''under-volt'', SetSensitive (S \<noteq> {})] @
          (if S = {} then [Hide] else [ShowAll, SetTooltip (tooltip_spec S)]))"
  proof (cases "S = {}")
    case True
    then show ?thesis by (simp add: update_icon_hidden flags_of_zero)
  next
    case False
    then have "tooltip_concat (show_icon (pt\<lparr>show_icon := flags_of S\<rparr>)) \<noteq> []"
      by (simp add: tooltip_concat_empty hazard_set_empty) (use flags_of_bits [of S] in auto)
    from update_icon_shown [OF this] False show ?thesis
      by (simp add: tooltip_concat_flags_of)
  qed
  show "tooltip_spec {LowVoltage, OverCurrent} =
       ''PSU low voltage detected'' @ [NL] @ ''USB over current detected''"
    by (simp add: tooltip_spec_def)
qed

theorem update_icon_contract_witness:
  "update_icon (zeroed_context\<lparr>show_icon := 3\<rparr>) =
     Inr [SetTaskbarIcon ''under-volt'', SetSensitive True, ShowAll,
          SetTooltip ''PSU low voltage detected\<newline>USB over current detected''] \<and>
   update_icon (zeroed_context\<lparr>show_icon := 0\<rparr>) =
     Inr [SetTaskbarIcon ''under-volt'', SetSensitive False, Hide]"
  using update_icon_contract [where pt = zeroed_context and S = "{LowVoltage, OverCurrent}"]
    update_icon_contract [where pt = zeroed_context and S = "{}"]
  by (simp add: flags_of_def tooltip_spec_def)

subsection \<open>The big-endian read\<close>

lemma ucast_byte: "(ucast (byte_of b) :: c_int) = of_char b"
  by (simp add: byte_of_def unsigned_of_int take_bit_eq_mod of_nat_of_char)

lemma int_of_bytes_chars:
  "int_of_bytes [byte_of b3, byte_of b2, byte_of b1, byte_of b0] = be_u32 b0 b1 b2 b3"
  by (simp add: int_of_bytes_def be_u32_def ucast_byte or.commute or.left_commute or.assoc)

lemma four: "(4 :: nat) = Suc (Suc (Suc (Suc 0)))"
  by simp

lemma byte_of_FF: "byte_of (CHR 0xFF) = - 1"
  by (simp add: byte_of_def)

lemma read_bytes_byte:
  "read_bytes (Suc i) cptr (b # rest) = read_bytes i (cptr[i := byte_of b]) rest"
  by (simp add: byte_of_def)

lemma read_bytes_eof:
  "read_bytes (Suc i) cptr [] = read_bytes i (cptr[i := byte_of (CHR 0xFF)]) []"
  by (simp add: byte_of_FF)

lemma read_bytes_4:
  "read_bytes 4 [0, 0, 0, 0] (b0 # b1 # b2 # b3 # rest) = [byte_of b3, byte_of b2, byte_of b1, byte_of b0]"
  "read_bytes 4 [0, 0, 0, 0] [b0, b1, b2] = [byte_of (CHR 0xFF), byte_of b2, byte_of b1, byte_of b0]"
  "read_bytes 4 [0, 0, 0, 0] [b0, b1] = [byte_of (CHR 0xFF), byte_of (CHR 0xFF), byte_of b1, byte_of b0]"
  "read_bytes 4 [0, 0, 0, 0] [b0] = [byte_of (CHR 0xFF), byte_of (CHR 0xFF), byte_of (CHR 0xFF), byte_of b0]"
  "read_bytes 4 [0, 0, 0, 0] [] = [byte_of (CHR 0xFF), byte_of (CHR 0xFF), byte_of (CHR 0xFF), byte_of (CHR 0xFF)]"
  by (simp_all only: four read_bytes_byte read_bytes_eof read_bytes.simps(1) list_update_code)

text \<open>
  C6. The 32-bit read of the PSU and brown-out checks: when the file does not open
  there is no value; when the file holds at least four bytes b0 b1 b2 b3 the value is
  (b0<<24)|(b1<<16)|(b2<<8)|b3; when it holds fewer, the read still yields a value, with
  the end-of-file result, cut to the byte 0xFF, in each lower byte position that the
  file did not fill.
\<close>

theorem read_be_u32_value:
  "(fopen e path = None \<longrightarrow> read_be_u32 e path = None) \<and>
   (\<forall>b0 b1 b2 b3 rest. fopen e path = Some (b0 # b1 # b2 # b3 # rest) \<longrightarrow>
      read_be_u32 e path = Some (be_u32 b0 b1 b2 b3)) \<and>
   (\<forall>b0 b1 b2. fopen e path = Some [b0, b1, b2] \<longrightarrow>
      read_be_u32 e path = Some (be_u32 b0 b1 b2 (CHR 0xFF))) \<and>
   (\<forall>b0 b1. fopen e path = Some [b0, b1] \<longrightarrow>
      read_be_u32 e path = Some (be_u32 b0 b1 (CHR 0xFF) (CHR 0xFF))) \<and>
   (\<forall>b0. fopen e path = Some [b0] \<longrightarrow>
      read_be_u32 e path = Some (be_u32 b0 (CHR 0xFF) (CHR 0xFF) (CHR 0xFF))) \<and>
   (fopen e path = Some [] \<longrightarrow>
      read_be_u32 e path = Some (be_u32 (CHR 0xFF) (CHR 0xFF) (CHR 0xFF) (CHR 0xFF)))"
  by (simp add: read_be_u32_def read_bytes_4 int_of_bytes_chars)

theorem read_be_u32_value_witness:
  "read_be_u32 (example_env [(POWER_PATH @ ''max_current'', [CHR 0x00, CHR 0x00, CHR 0x13, CHR 0x87])] [])
     (POWER_PATH @ ''max_current'') = Some 4999 \<and>
   read_be_u32 (example_env [(POWER_PATH @ ''max_current'', [CHR 0x00, CHR 0x00, CHR 0x13])] [])
     (POWER_PATH @ ''max_current'') = Some 5119 \<and>
   read_be_u32 (example_env [] []) (POWER_PATH @ ''max_current'') = None"
  using
    read_be_u32_value [of "example_env [(POWER_PATH @ ''max_current'', [CHR 0x00, CHR 0x00, CHR 0x13, CHR 0x87])] []"
      "POWER_PATH @ ''max_current''"]
    read_be_u32_value [of "example_env [(POWER_PATH @ ''max_current'', [CHR 0x00, CHR 0x00, CHR 0x13])] []"
      "POWER_PATH @ ''max_current''"]
    read_be_u32_value [of "example_env [] []" "POWER_PATH @ ''max_current''"]
  by (simp add: example_env_def be_u32_def)

subsection \<open>The low-voltage callback\<close>

lemma strcmp_eq: "strcmp a b = 0 \<longleftrightarrow> a = b"
  by (induction a b rule: strcmp.induct) auto

lemma g_strcmp0_eq: "g_strcmp0 a b = 0 \<longleftrightarrow> a = b"
  by (cases a; cases b) (simp_all add: strcmp_eq)

lemma strncmp_prefix: "strncmp s p (length p) = 0 \<longleftrightarrow> prefix p s"
  by (induction s p "length p" arbitrary: rule: strncmp.induct) auto

lemma strncmp_hwmon: "strncmp s ''hwmon'' 5 = 0 \<longleftrightarrow> prefix ''hwmon'' s"
  using strncmp_prefix [of s "''hwmon''"] by (simp add: eval_nat_numeral)

lemma of_char_49: "(of_char c :: int) = 0x31 \<longleftrightarrow> c = CHR ''1''"
proof -
  have "(0x31 :: int) = of_char (CHR ''1'')" by simp
  then show ?thesis by (simp only: of_char_eq_iff)
qed

lemma fgetc_is_1:
  "fopen e path = Some fp \<Longrightarrow> fst (fgetc fp) = 0x31 \<longleftrightarrow> first_byte_is_1 e path"
  by (cases fp) (simp_all add: first_byte_is_1_def of_char_49)

lemma first_byte_closed: "fopen e path = None \<Longrightarrow> \<not> first_byte_is_1 e path"
  by (simp add: first_byte_is_1_def)

lemma criticals_icon_shown [simp]: "criticals (icon_shown si) = []"
  by (simp add: criticals_def icon_shown_def)

lemma update_icon_flag:
  "m = 1 \<or> m = 2 \<or> m = 4 \<Longrightarrow>
   update_icon (pt\<lparr>show_icon := show_icon pt OR m\<rparr>) = Inr (icon_shown (show_icon pt OR m))"
  unfolding icon_shown_def
  by (rule update_icon_shown [of "pt\<lparr>show_icon := show_icon pt OR m\<rparr>", simplified])
     (auto simp: tooltip_concat_empty bit.conj_disj_distrib2)

text \<open>
  C2. A low-voltage event raises the alarm exactly when its action is "change", its
  sysname starts with hwmon and the first byte of in0_lcrit_alarm under its syspath is
  the character 1. Then the callback emits one Critical notification, sets the
  LowVoltage flag and refreshes the icon; otherwise (also when no device is received)
  it emits nothing and leaves the context as it is.
\<close>

theorem cb_lowvoltage_fd_filter:
  "cb_lowvoltage_fd e (Some dev) pt =
     (if lv_alarm e dev
      then Inr (pt\<lparr>show_icon := show_icon pt OR ICON_LOW_VOLTAGE\<rparr>,
                Critical LV_MESSAGE # icon_shown (show_icon pt OR ICON_LOW_VOLTAGE))
      else Inr (pt, []))
   \<and> cb_lowvoltage_fd e None pt = Inr (pt, [])
   \<and> criticals (Critical LV_MESSAGE # icon_shown (show_icon pt OR ICON_LOW_VOLTAGE)) = [LV_MESSAGE]
   \<and> LowVoltage \<in> hazards (pt\<lparr>show_icon := show_icon pt OR ICON_LOW_VOLTAGE\<rparr>)"
proof (intro conjI)
  show "cb_lowvoltage_fd e (Some dev) pt =
     (if lv_alarm e dev
      then Inr (pt\<lparr>show_icon := show_icon pt OR ICON_LOW_VOLTAGE\<rparr>,
                Critical LV_MESSAGE # icon_shown (show_icon pt OR ICON_LOW_VOLTAGE))
      else Inr (pt, []))"
  proof (cases "fopen e (syspath dev @ ''/in0_lcrit_alarm'')")
    case None
    then show ?thesis
      by (simp add: cb_lowvoltage_fd_def lv_alarm_def first_byte_closed)
  next
    case (Some fp)
    then show ?thesis
      by (simp add: cb_lowvoltage_fd_def lv_alarm_def g_strcmp0_eq strncmp_hwmon
          fgetc_is_1 [OF Some] update_icon_flag)
  qed
  show "cb_lowvoltage_fd e None pt = Inr (pt, [])"
    by (simp add: cb_lowvoltage_fd_def)
  show "criticals (Critical LV_MESSAGE # icon_shown (show_icon pt OR ICON_LOW_VOLTAGE)) = [LV_MESSAGE]"
    using criticals_icon_shown [of "show_icon pt OR ICON_LOW_VOLTAGE"]
    by (simp add: criticals_def)
  show "LowVoltage \<in> hazards (pt\<lparr>show_icon := show_icon pt OR ICON_LOW_VOLTAGE\<rparr>)"
    by (simp add: hazards_def bit.conj_disj_distrib2)
qed


theorem cb_lowvoltage_fd_filter_witness:
  "cb_lowvoltage_fd (example_env [(''/sys/class/hwmon/hwmon3/in0_lcrit_alarm'', ''1\<newline>'')] [])
     (Some (example_device ''change'' ''hwmon3'' ''/sys/class/hwmon/hwmon3'' [])) zeroed_context =
     Inr (zeroed_context\<lparr>show_icon := 1\<rparr>,
          [Critical LV_MESSAGE, SetTaskbarIcon ''under-volt'', SetSensitive True, ShowAll,
           SetTooltip ''PSU low voltage detected'']) \<and>
   cb_lowvoltage_fd (example_env [(''/sys/class/hwmon/hwmon3/in0_lcrit_alarm'', ''0\<newline>'')] [])
     (Some (example_device ''change'' ''hwmon3'' ''/sys/class/hwmon/hwmon3'' [])) zeroed_context =
     Inr (zeroed_context, []) \<and>
   cb_lowvoltage_fd (example_env [(''/sys/class/hwmon/hwmon3/in0_lcrit_alarm'', ''1\<newline>'')] [])
     (Some (example_device ''add'' ''hwmon3'' ''/sys/class/hwmon/hwmon3'' [])) zeroed_context =
     Inr (zeroed_context, [])"
  using
    cb_lowvoltage_fd_filter [of "example_env [(''/sys/class/hwmon/hwmon3/in0_lcrit_alarm'', ''1\<newline>'')] []"
      "example_device ''change'' ''hwmon3'' ''/sys/class/hwmon/hwmon3'' []" zeroed_context]
    cb_lowvoltage_fd_filter [of "example_env [(''/sys/class/hwmon/hwmon3/in0_lcrit_alarm'', ''0\<newline>'')] []"
      "example_device ''change'' ''hwmon3'' ''/sys/class/hwmon/hwmon3'' []" zeroed_context]
    cb_lowvoltage_fd_filter [of "example_env [(''/sys/class/hwmon/hwmon3/in0_lcrit_alarm'', ''1\<newline>'')] []"
      "example_device ''add'' ''hwmon3'' ''/sys/class/hwmon/hwmon3'' []" zeroed_context]
  by (simp add: example_env_def example_device_def zeroed_context_def lv_alarm_def
      first_byte_is_1_def icon_shown_def tooltip_concat_def)

subsection \<open>The startup checks\<close>

lemma read_be_u32_None: "read_be_u32 e path = None \<longleftrightarrow> fopen e path = None"
  by (simp add: read_be_u32_def split: option.splits)

lemma check_psu_pure: "\<exists>out. check_psu e pt = Inr (pt, out)"
  by (simp add: check_psu_def split: option.splits)

lemma check_memres_pure: "\<exists>out. check_memres e pt = Inr (pt, out)"
  by (simp add: check_memres_def Let_def split: option.splits)

lemma check_user_warnings_pure: "\<exists>out. check_user_warnings e pt = Inr (pt, out)"
  by (simp add: check_user_warnings_def split: option.splits)

lemma check_brownout_cases:
  "check_brownout e pt =
     (case read_be_u32 e (POWER_PATH @ ''power_reset'') of
        None \<Rightarrow> Inr (pt, [])
      | Some val \<Rightarrow>
          if val AND 0x02 \<noteq> 0
          then Inr (pt\<lparr>show_icon := show_icon pt OR ICON_BROWNOUT\<rparr>,
                    Critical BROWNOUT_MESSAGE # icon_shown (show_icon pt OR ICON_BROWNOUT))
          else Inr (pt, []))"
  by (simp add: check_brownout_def Let_def update_icon_flag split: option.splits)

text \<open>
  C7. When power_reset opens and bit 0x02 of the value read is set, the brown-out check
  emits exactly one Critical notification, sets the Brownout flag and refreshes the
  icon. When the bit is clear, or the file does not open, it emits nothing and leaves
  the context as it is. The PSU, memory and user-warning checks never change the context.
\<close>

theorem check_brownout_contract:
  "(\<forall>val. read_be_u32 e (POWER_PATH @ ''power_reset'') = Some val \<and> val AND 0x02 \<noteq> 0 \<longrightarrow>
      check_brownout e pt =
        Inr (pt\<lparr>show_icon := show_icon pt OR ICON_BROWNOUT\<rparr>,
             Critical BROWNOUT_MESSAGE # icon_shown (show_icon pt OR ICON_BROWNOUT)) \<and>
      criticals (Critical BROWNOUT_MESSAGE # icon_shown (show_icon pt OR ICON_BROWNOUT)) =
        [BROWNOUT_MESSAGE] \<and>
      Brownout \<in> hazards (pt\<lparr>show_icon := show_icon pt OR ICON_BROWNOUT\<rparr>)) \<and>
   (\<forall>val. read_be_u32 e (POWER_PATH @ ''power_reset'') = Some val \<and> val AND 0x02 = 0 \<longrightarrow>
      check_brownout e pt = Inr (pt, [])) \<and>
   (fopen e (POWER_PATH @ ''power_reset'') = None \<longrightarrow> check_brownout e pt = Inr (pt, [])) \<and>
   (\<exists>out. check_psu e pt = Inr (pt, out)) \<and>
   (\<exists>out. check_memres e pt = Inr (pt, out)) \<and>
   (\<exists>out. check_user_warnings e pt = Inr (pt, out))"
proof (intro conjI allI impI)
  fix val
  assume "read_be_u32 e (POWER_PATH @ ''power_reset'') = Some val \<and> val AND 0x02 \<noteq> 0"
  then show "check_brownout e pt =
        Inr (pt\<lparr>show_icon := show_icon pt OR ICON_BROWNOUT\<rparr>,
             Critical BROWNOUT_MESSAGE # icon_shown (show_icon pt OR ICON_BROWNOUT))"
    by (simp add: check_brownout_cases)
next
  show "criticals (Critical BROWNOUT_MESSAGE # icon_shown (show_icon pt OR ICON_BROWNOUT)) =
        [BROWNOUT_MESSAGE]"
    using criticals_icon_shown [of "show_icon pt OR ICON_BROWNOUT"] by (simp add: criticals_def)
next
  show "Brownout \<in> hazards (pt\<lparr>show_icon := show_icon pt OR ICON_BROWNOUT\<rparr>)"
    by (simp add: hazards_def bit.conj_disj_distrib2)
next
  fix val
  assume "read_be_u32 e (POWER_PATH @ ''power_reset'') = Some val \<and> val AND 0x02 = 0"
  then show "check_brownout e pt = Inr (pt, [])"
    by (simp add: check_brownout_cases)
next
  assume "fopen e (POWER_PATH @ ''power_reset'') = None"
  then have "read_be_u32 e (POWER_PATH @ ''power_reset'') = None"
    by (simp only: read_be_u32_None)
  then show "check_brownout e pt = Inr (pt, [])"
    by (simp add: check_brownout_cases)
qed (rule check_psu_pure check_memres_pure check_user_warnings_pure)+

theorem check_brownout_contract_witness:
  "check_brownout (example_env [(POWER_PATH @ ''power_reset'', [CHR 0x00, CHR 0x00, CHR 0x00, CHR 0x02])] [])
     zeroed_context =
     Inr (zeroed_context\<lparr>show_icon := 4\<rparr>,
          [Critical BROWNOUT_MESSAGE, SetTaskbarIcon ''under-volt'', SetSensitive True, ShowAll,
           SetTooltip ''Low power reset has occurred'']) \<and>
   check_brownout (example_env [(POWER_PATH @ ''power_reset'', [CHR 0x00, CHR 0x00, CHR 0x00, CHR 0x00])] [])
     zeroed_context = Inr (zeroed_context, []) \<and>
   check_brownout (example_env [] []) zeroed_context = Inr (zeroed_context, [])"
proof -
  let ?e2 = "example_env [(POWER_PATH @ ''power_reset'', [CHR 0x00, CHR 0x00, CHR 0x00, CHR 0x02])] []"
  let ?e0 = "example_env [(POWER_PATH @ ''power_reset'', [CHR 0x00, CHR 0x00, CHR 0x00, CHR 0x00])] []"
  have r2: "read_be_u32 ?e2 (POWER_PATH @ ''power_reset'') = Some 2"
    by (simp add: read_be_u32_def example_env_def read_bytes_4 int_of_bytes_chars be_u32_def)
  have r0: "read_be_u32 ?e0 (POWER_PATH @ ''power_reset'') = Some 0"
    by (simp add: read_be_u32_def example_env_def read_bytes_4 int_of_bytes_chars be_u32_def)
  have none: "fopen (example_env [] []) (POWER_PATH @ ''power_reset'') = None"
    by (simp add: example_env_def)
  show ?thesis
    using check_brownout_contract [of ?e2 zeroed_context] check_brownout_contract [of ?e0 zeroed_context]
      check_brownout_contract [of "example_env [] []" zeroed_context] r2 r0 none
    by (simp add: zeroed_context_def icon_shown_def tooltip_concat_def)
qed

subsection \<open>Flags are never cleared\<close>

lemma superset_or: "(w OR m) AND w = (w :: c_int)"
  by (simp add: and.commute)

lemma superset_trans:
  "(b :: c_int) AND a = a \<Longrightarrow> c AND b = b \<Longrightarrow> c AND a = a"
  by (metis and.assoc)

lemma hazards_mono:
  assumes "show_icon pt' AND show_icon pt = show_icon pt"
  shows "hazards pt \<subseteq> hazards pt'"
proof
  fix h
  assume "h \<in> hazards pt"
  then have "show_icon pt AND mask h \<noteq> 0" by (simp add: hazards_def)
  then have "(show_icon pt' AND show_icon pt) AND mask h \<noteq> 0" using assms by simp
  then have "show_icon pt' AND mask h \<noteq> 0"
    by (metis and.assoc and.left_commute and_zero_eq)
  then show "h \<in> hazards pt'" by (simp add: hazards_def)
qed

lemma cb_overcurrent_fd_sticky:
  "cb_overcurrent_fd e received pt = Inr (pt', out) \<Longrightarrow> show_icon pt' AND show_icon pt = show_icon pt"
  by (auto simp: cb_overcurrent_fd_def Let_def superset_or
      split: option.splits if_splits sum.splits)

lemma cb_lowvoltage_fd_sticky:
  "cb_lowvoltage_fd e received pt = Inr (pt', out) \<Longrightarrow> show_icon pt' AND show_icon pt = show_icon pt"
  by (auto simp: cb_lowvoltage_fd_def Let_def superset_or
      split: option.splits if_splits sum.splits)

lemma check_brownout_sticky:
  "check_brownout e pt = Inr (pt', out) \<Longrightarrow> show_icon pt' AND show_icon pt = show_icon pt"
  by (auto simp: check_brownout_cases superset_or split: option.splits if_splits)

lemma check_psu_sticky:
  "check_psu e pt = Inr (pt', out) \<Longrightarrow> show_icon pt' AND show_icon pt = show_icon pt"
  using check_psu_pure [of e pt] by auto

lemma check_memres_sticky:
  "check_memres e pt = Inr (pt', out) \<Longrightarrow> show_icon pt' AND show_icon pt = show_icon pt"
  using check_memres_pure [of e pt] by auto

lemma check_user_warnings_sticky:
  "check_user_warnings e pt = Inr (pt', out) \<Longrightarrow> show_icon pt' AND show_icon pt = show_icon pt"
  using check_user_warnings_pure [of e pt] by auto

lemma power_update_display_sticky:
  "power_update_display pt = Inr (pt', out) \<Longrightarrow> show_icon pt' AND show_icon pt = show_icon pt"
  by (auto simp: power_update_display_def split: sum.splits)

lemma and_then_Inr:
  "and_then r f = Inr (pt'', out) \<longleftrightarrow>
     (\<exists>pt' out1 out2. r = Inr (pt', out1) \<and> f pt' = Inr (pt'', out2) \<and> out = out1 @ out2)"
  by (auto simp: and_then_def split: sum.splits prod.splits)

lemma startup_checks_sticky:
  assumes "startup_checks e pt = Inr (pt', out)"
  shows "show_icon pt' AND show_icon pt = show_icon pt"
proof -
  from assms obtain p1 p2 p3 p4 o1 o2 o3 o4 where
    "check_psu e pt = Inr (p1, o1)" "check_brownout e p1 = Inr (p2, o2)"
    "check_memres e p2 = Inr (p3, o3)" "check_user_warnings e p3 = Inr (p4, o4)"
    "pt' = p4\<lparr>startup_id := 0\<rparr>"
    by (auto simp: startup_checks_def and_then_Inr)
  then show ?thesis
    using check_psu_pure [of e pt] check_memres_pure [of e p2] check_user_warnings_pure [of e p3]
      check_brownout_sticky [of e p1 p2 o2]
    by auto
qed

lemma perform_sticky:
  "perform e op pt = Inr (pt', out) \<Longrightarrow> show_icon pt' AND show_icon pt = show_icon pt"
  by (cases op)
     (simp_all add: cb_overcurrent_fd_sticky cb_lowvoltage_fd_sticky startup_checks_sticky
        check_psu_sticky check_brownout_sticky check_memres_sticky check_user_warnings_sticky
        power_update_display_sticky)

lemma run_sticky:
  "run ops pt = Inr (pt', out) \<Longrightarrow> show_icon pt' AND show_icon pt = show_icon pt"
proof (induction ops arbitrary: pt out)
  case Nil
  then show ?case by simp
next
  case (Cons x ops)
  obtain e op where x: "x = (e, op)" by (cases x)
  from Cons.prems obtain p1 o1 o2 where
    step: "perform e op pt = Inr (p1, o1)" and rest: "run ops p1 = Inr (pt', o2)"
    by (auto simp: x and_then_Inr)
  from perform_sticky [OF step] Cons.IH [OF rest] show ?case
    by (rule superset_trans)
qed

subsection \<open>The overcurrent callback\<close>

lemma cb_overcurrent_fd_step:
  assumes "oc_disabled e dev" and "oc_count dev = Some c"
  shows "cb_overcurrent_fd e (Some dev) pt =
     (if c \<noteq> last_oc pt
      then Inr (pt\<lparr>show_icon := show_icon pt OR ICON_OVER_CURRENT, last_oc := c\<rparr>,
                Critical OC_MESSAGE # icon_shown (show_icon pt OR ICON_OVER_CURRENT))
      else Inr (pt, []))"
proof -
  let ?path = "''/sys/'' @ printf_s (property_value dev ''OVER_CURRENT_PORT'') @ ''/disable''"
  from assms(1) have act: "action dev = Some ''change''" and one: "first_byte_is_1 e ?path"
    by (simp_all add: oc_disabled_def)
  from one obtain fp where fp: "fopen e ?path = Some fp"
    by (auto simp: first_byte_is_1_def split: option.splits)
  from fgetc_is_1 [OF fp] one have byte: "fst (fgetc fp) = 0x31" by simp
  from assms(2) obtain count where
    count: "property_value dev ''OVER_CURRENT_COUNT'' = Some count" "sscanf_d count = Some c"
    by (auto simp: oc_count_def split: option.splits)
  show ?thesis
    using fp byte
    by (simp add: cb_overcurrent_fd_def act g_strcmp0_eq count update_icon_flag Let_def)
qed

lemma cb_overcurrent_fd_quiet:
  assumes "\<not> oc_disabled e dev"
  shows "cb_overcurrent_fd e (Some dev) pt = Inr (pt, [])"
proof (cases "action dev = Some ''change''")
  case False
  then show ?thesis by (simp add: cb_overcurrent_fd_def g_strcmp0_eq)
next
  case True
  let ?path = "''/sys/'' @ printf_s (property_value dev ''OVER_CURRENT_PORT'') @ ''/disable''"
  from assms True have no: "\<not> first_byte_is_1 e ?path" by (simp add: oc_disabled_def)
  show ?thesis
  proof (cases "fopen e ?path")
    case None
    then show ?thesis by (simp add: cb_overcurrent_fd_def True)
  next
    case (Some fp)
    from fgetc_is_1 [OF Some] no have "fst (fgetc fp) \<noteq> 0x31" by simp
    with Some show ?thesis by (simp add: cb_overcurrent_fd_def True)
  qed
qed

lemma criticals_append: "criticals (a @ b) = criticals a @ criticals b"
  by (simp add: criticals_def)

lemma oc_run:
  assumes "list_all2 (\<lambda>(e, dev) c. oc_disabled e dev \<and> oc_count dev = Some c) evs cs"
  shows "\<exists>pt' out. run (oc_events evs) pt = Inr (pt', out) \<and>
           criticals out = replicate (changes (last_oc pt) cs) OC_MESSAGE \<and>
           last_oc pt' = last (last_oc pt # cs) \<and>
           pt' = (if changes (last_oc pt) cs = 0 then pt
                  else pt\<lparr>show_icon := show_icon pt OR ICON_OVER_CURRENT, last_oc := last cs\<rparr>) \<and>
           (changes (last_oc pt) cs = 0 \<longrightarrow> out = [])"
  using assms
proof (induction evs cs arbitrary: pt rule: list_all2_induct)
  case Nil
  then show ?case by (simp add: oc_events_def criticals_def)
next
  case (Cons x evs c cs)
  obtain e dev where x: "x = (e, dev)" by (cases x)
  from Cons.hyps(1) x have q: "oc_disabled e dev" "oc_count dev = Some c" by simp_all
  note step = cb_overcurrent_fd_step [OF q, of pt]
  show ?case
  proof (cases "c = last_oc pt")
    case True
    from Cons.IH [of pt] obtain pt' out where
      r: "run (oc_events evs) pt = Inr (pt', out)"
        "criticals out = replicate (changes (last_oc pt) cs) OC_MESSAGE"
        "last_oc pt' = last (last_oc pt # cs)"
        "pt' = (if changes (last_oc pt) cs = 0 then pt
                  else pt\<lparr>show_icon := show_icon pt OR ICON_OVER_CURRENT, last_oc := last cs\<rparr>)"
        "changes (last_oc pt) cs = 0 \<longrightarrow> out = []"
      by (elim exE conjE) (rule that)
    have "run (oc_events (x # evs)) pt = Inr (pt', out)"
      using step True r(1) by (simp add: oc_events_def x and_then_def)
    moreover have "changes (last_oc pt) cs \<noteq> 0 \<Longrightarrow> cs \<noteq> []" by auto
    ultimately show ?thesis using r True by auto
  next
    case False
    let ?p1 = "pt\<lparr>show_icon := show_icon pt OR ICON_OVER_CURRENT, last_oc := c\<rparr>"
    from Cons.IH [of ?p1] obtain pt' out where
      r: "run (oc_events evs) ?p1 = Inr (pt', out)"
        "criticals out = replicate (changes c cs) OC_MESSAGE"
        "last_oc pt' = last (c # cs)"
        "pt' = (if changes c cs = 0 then ?p1
                  else ?p1\<lparr>show_icon := show_icon ?p1 OR ICON_OVER_CURRENT, last_oc := last cs\<rparr>)"
      by (elim exE conjE) (rule that, simp_all)
    have run: "run (oc_events (x # evs)) pt =
        Inr (pt', (Critical OC_MESSAGE # icon_shown (show_icon pt OR ICON_OVER_CURRENT)) @ out)"
      using step False r(1) by (simp add: oc_events_def x and_then_def)
    have last: "changes c cs = 0 \<Longrightarrow> last (c # cs) = c"
      by (induction cs) (auto split: if_splits)
    have crit: "criticals ((Critical OC_MESSAGE # icon_shown (show_icon pt OR ICON_OVER_CURRENT)) @ out) =
        replicate (changes (last_oc pt) (c # cs)) OC_MESSAGE"
      using r(2) False criticals_icon_shown [of "show_icon pt OR ICON_OVER_CURRENT"]
      by (simp add: criticals_def)
    have "changes c cs \<noteq> 0 \<Longrightarrow> cs \<noteq> []" by auto
    then have st: "pt' = pt\<lparr>show_icon := show_icon pt OR ICON_OVER_CURRENT, last_oc := last (c # cs)\<rparr>"
      using r(4) last by (cases "changes c cs = 0") (simp_all add: or.assoc)
    show ?thesis
      using run crit r(3) st False by simp
  qed
qed


lemma store_int_counter:
  assumes "0 \<le> v" and "v < 2 ^ 32 - 1"
  shows "store_int v = word_of_int v" and "store_int v \<noteq> - 1"
proof -
  show eq: "store_int v = word_of_int v"
    using assms by (simp add: store_int_def)
  have "take_bit 32 v = v"
    using assms by (simp add: take_bit_int_eq_self)
  moreover have "take_bit 32 (- 1 :: int) = 2 ^ 32 - 1"
    by (simp add: take_bit_minus_one_eq_mask mask_eq_exp_minus_1)
  ultimately have ne: "take_bit LENGTH(32) v \<noteq> take_bit LENGTH(32) (- 1 :: int)"
    using assms by simp
  have "(word_of_int v :: c_int) = word_of_int (- 1) \<longleftrightarrow>
          take_bit LENGTH(32) v = take_bit LENGTH(32) (- 1 :: int)"
    by (rule word_of_int_eq_iff)
  with ne have "(word_of_int v :: c_int) \<noteq> word_of_int (- 1)"
    by blast
  then show "store_int v \<noteq> - 1"
    by (simp add: eq)
qed

lemma sscanf_examples:
  "sscanf_d ''-1'' = Some (- 1)" "sscanf_d ''7'' = Some 7" "sscanf_d ''8'' = Some 8"
  by (simp_all add: sscanf_d_def scan_d_def isspace_def isdigit_def store_int_def Let_def)

lemma usb_port_event_qualifies:
  "oc_disabled usb_port_env (usb_port_event count)"
  "oc_count (usb_port_event count) = sscanf_d count"
  by (simp_all add: oc_disabled_def oc_count_def usb_port_env_def usb_port_event_def
      example_env_def example_device_def first_byte_is_1_def)

text \<open>
  The first qualifying event after set-up does not always fire: the stored counter
  starts at -1, and an event whose counter text reads -1 is taken for a repeat.
\<close>

theorem first_overcurrent_event_counterexample:
  "oc_disabled usb_port_env (usb_port_event ''-1'') \<and>
   oc_count (usb_port_event ''-1'') = Some (- 1) \<and>
   cb_overcurrent_fd usb_port_env (Some (usb_port_event ''-1'')) (power_init example_init zeroed_context) =
     Inr (power_init example_init zeroed_context, [])"
proof -
  have "last_oc (power_init example_init zeroed_context) = - 1"
    by (simp add: power_init_def example_init_def Let_def)
  then show ?thesis
    using cb_overcurrent_fd_step [of usb_port_env "usb_port_event ''-1''" "- 1"
        "power_init example_init zeroed_context"]
    by (simp add: usb_port_event_qualifies sscanf_examples)
qed

text \<open>
  C1 (amended). For a USB event with action "change", disable-file byte 1 and a counter
  that parses as an integer, the callback emits one Critical notification, sets the
  OverCurrent flag, refreshes the icon and stores the counter exactly when the parsed
  counter differs from the stored one; a repeat of the stored counter emits nothing and
  changes nothing. Over a sequence of such events the Critical notifications number the
  changes of counter along the sequence, starting from the stored one, and the last
  counter ends up stored. Set-up on a Raspberry Pi stores -1, so the first such event
  fires unless its counter parses to -1; a counter text that is a number from 0 up to
  4294967294 never parses to -1.
\<close>

theorem cb_overcurrent_fd_dedup:
  "(oc_disabled e dev \<and> oc_count dev = Some c \<longrightarrow>
      cb_overcurrent_fd e (Some dev) pt =
        (if c \<noteq> last_oc pt
         then Inr (pt\<lparr>show_icon := show_icon pt OR ICON_OVER_CURRENT, last_oc := c\<rparr>,
                   Critical OC_MESSAGE # icon_shown (show_icon pt OR ICON_OVER_CURRENT))
         else Inr (pt, []))) \<and>
   (list_all2 (\<lambda>(e, dev) c. oc_disabled e dev \<and> oc_count dev = Some c) evs cs \<longrightarrow>
      (\<exists>pt' out. run (oc_events evs) pt = Inr (pt', out) \<and>
         criticals out = replicate (changes (last_oc pt) cs) OC_MESSAGE \<and>
         last_oc pt' = last (last_oc pt # cs) \<and>
         pt' = (if changes (last_oc pt) cs = 0 then pt
                else pt\<lparr>show_icon := show_icon pt OR ICON_OVER_CURRENT, last_oc := last cs\<rparr>) \<and>
         (changes (last_oc pt) cs = 0 \<longrightarrow> out = []))) \<and>
   (is_pi ie \<longrightarrow> last_oc (power_init ie pt0) = - 1) \<and>
   (is_pi ie \<and> oc_disabled e dev \<and> oc_count dev = Some c \<longrightarrow>
      (cb_overcurrent_fd e (Some dev) (power_init ie pt0) = Inr (power_init ie pt0, [])
         \<longleftrightarrow> c = - 1)) \<and>
   (property_value dev ''OVER_CURRENT_COUNT'' = Some count \<and> scan_d count = Some (v, rest) \<and>
    0 \<le> v \<and> v < 2 ^ 32 - 1 \<longrightarrow>
      oc_count dev = Some (word_of_int v) \<and> (word_of_int v :: c_int) \<noteq> - 1)"
proof (intro conjI impI)
  assume "oc_disabled e dev \<and> oc_count dev = Some c"
  then show "cb_overcurrent_fd e (Some dev) pt =
        (if c \<noteq> last_oc pt
         then Inr (pt\<lparr>show_icon := show_icon pt OR ICON_OVER_CURRENT, last_oc := c\<rparr>,
                   Critical OC_MESSAGE # icon_shown (show_icon pt OR ICON_OVER_CURRENT))
         else Inr (pt, []))"
    by (simp add: cb_overcurrent_fd_step)
next
  assume "list_all2 (\<lambda>(e, dev) c. oc_disabled e dev \<and> oc_count dev = Some c) evs cs"
  then show "\<exists>pt' out. run (oc_events evs) pt = Inr (pt', out) \<and>
         criticals out = replicate (changes (last_oc pt) cs) OC_MESSAGE \<and>
         last_oc pt' = last (last_oc pt # cs) \<and>
         pt' = (if changes (last_oc pt) cs = 0 then pt
                else pt\<lparr>show_icon := show_icon pt OR ICON_OVER_CURRENT, last_oc := last cs\<rparr>) \<and>
         (changes (last_oc pt) cs = 0 \<longrightarrow> out = [])"
    by (rule oc_run)
next
  assume "is_pi ie"
  then show "last_oc (power_init ie pt0) = - 1"
    by (simp add: power_init_def Let_def)
next
  assume a: "is_pi ie \<and> oc_disabled e dev \<and> oc_count dev = Some c"
  then have "last_oc (power_init ie pt0) = - 1"
    by (simp add: power_init_def Let_def)
  then show "cb_overcurrent_fd e (Some dev) (power_init ie pt0) = Inr (power_init ie pt0, [])
         \<longleftrightarrow> c = - 1"
    using a cb_overcurrent_fd_step [of e dev c "power_init ie pt0"] by auto
next
  assume a: "property_value dev ''OVER_CURRENT_COUNT'' = Some count \<and> scan_d count = Some (v, rest) \<and>
    0 \<le> v \<and> v < 2 ^ 32 - 1"
  then show "oc_count dev = Some (word_of_int v)"
    using store_int_counter(1) [of v] by (simp add: oc_count_def sscanf_d_def)
  from a show "(word_of_int v :: c_int) \<noteq> - 1"
    using store_int_counter [of v] by simp
qed

theorem cb_overcurrent_fd_dedup_witness:
  "(\<exists>pt' out.
      run (oc_events [(usb_port_env, usb_port_event ''7''), (usb_port_env, usb_port_event ''7''),
                      (usb_port_env, usb_port_event ''8'')])
        (power_init example_init zeroed_context) = Inr (pt', out) \<and>
      criticals out = [OC_MESSAGE, OC_MESSAGE] \<and> last_oc pt' = 8 \<and>
      hazards pt' = {OverCurrent}) \<and>
   cb_overcurrent_fd usb_port_env (Some (usb_port_event ''7''))
     (power_init example_init zeroed_context) =
     Inr (power_init example_init zeroed_context\<lparr>show_icon := 2, last_oc := 7\<rparr>,
          [Critical OC_MESSAGE, SetTaskbarIcon ''under-volt'', SetSensitive True, ShowAll,
           SetTooltip ''USB over current detected'']) \<and>
   cb_overcurrent_fd usb_port_env (Some (usb_port_event ''7''))
     (power_init example_init zeroed_context\<lparr>show_icon := 2, last_oc := 7\<rparr>) =
     Inr (power_init example_init zeroed_context\<lparr>show_icon := 2, last_oc := 7\<rparr>, [])"
proof -
  let ?init = "power_init example_init zeroed_context"
  let ?evs = "[(usb_port_env, usb_port_event ''7''), (usb_port_env, usb_port_event ''7''),
               (usb_port_env, usb_port_event ''8'')]"
  have init: "last_oc ?init = - 1" "show_icon ?init = 0"
    by (simp_all add: power_init_def example_init_def Let_def)
  have q: "list_all2 (\<lambda>(e, dev) c. oc_disabled e dev \<and> oc_count dev = Some c) ?evs [7, 7, 8]"
    by (simp add: usb_port_event_qualifies sscanf_examples)
  have haz: "hazards (?init\<lparr>show_icon := 2, last_oc := 8\<rparr>) = {OverCurrent}"
  proof -
    have "h \<in> hazards (?init\<lparr>show_icon := 2, last_oc := 8\<rparr>) \<longleftrightarrow> h = OverCurrent" for h
      by (cases h) (simp_all add: hazards_def)
    then show ?thesis by blast
  qed
  have is7: "oc_disabled usb_port_env (usb_port_event ''7'') \<and> oc_count (usb_port_event ''7'') = Some 7"
    by (simp add: usb_port_event_qualifies sscanf_examples)
  note seq = cb_overcurrent_fd_dedup [of usb_port_env "usb_port_event ''7''" 7 ?init ?evs "[7, 7, 8]"
      example_init zeroed_context "''7''" 7 "[]", THEN conjunct2, THEN conjunct1, THEN mp, OF q]
  note first = cb_overcurrent_fd_dedup [of usb_port_env "usb_port_event ''7''" 7 ?init ?evs "[7, 7, 8]"
      example_init zeroed_context "''7''" 7 "[]", THEN conjunct1, THEN mp, OF is7]
  note again = cb_overcurrent_fd_dedup [of usb_port_env "usb_port_event ''7''" 7
      "?init\<lparr>show_icon := 2, last_oc := 7\<rparr>" ?evs "[7, 7, 8]"
      example_init zeroed_context "''7''" 7 "[]", THEN conjunct1, THEN mp, OF is7]
  from seq obtain pt' out where
    r: "run (oc_events ?evs) ?init = Inr (pt', out)"
      "criticals out = replicate (changes (last_oc ?init) [7, 7, 8]) OC_MESSAGE"
      "last_oc pt' = last (last_oc ?init # [7, 7, 8])"
      "pt' = (if changes (last_oc ?init) [7, 7, 8] = 0 then ?init
              else ?init\<lparr>show_icon := show_icon ?init OR ICON_OVER_CURRENT, last_oc := last [7, 7, 8]\<rparr>)"
    by (elim exE conjE) (rule that)
  have two: "changes (last_oc ?init) [7, 7, 8] = 2"
    by (simp add: init)
  from r(2) have c2: "criticals out = [OC_MESSAGE, OC_MESSAGE]"
    by (simp only: two numeral_2_eq_2 replicate.simps)
  from r(4) have "pt' = ?init\<lparr>show_icon := 2, last_oc := 8\<rparr>"
    by (simp only: two init) simp
  with haz have h: "hazards pt' = {OverCurrent}" by simp
  from r(3) have l8: "last_oc pt' = 8" by simp
  have part1: "\<exists>pt' out. run (oc_events ?evs) ?init = Inr (pt', out) \<and>
      criticals out = [OC_MESSAGE, OC_MESSAGE] \<and> last_oc pt' = 8 \<and> hazards pt' = {OverCurrent}"
    using r(1) c2 l8 h by blast
  from first have part2: "cb_overcurrent_fd usb_port_env (Some (usb_port_event ''7'')) ?init =
     Inr (?init\<lparr>show_icon := 2, last_oc := 7\<rparr>,
          [Critical OC_MESSAGE, SetTaskbarIcon ''under-volt'', SetSensitive True, ShowAll,
           SetTooltip ''USB over current detected''])"
    by (simp add: init icon_shown_def tooltip_concat_def)
  from again have part3: "cb_overcurrent_fd usb_port_env (Some (usb_port_event ''7''))
     (?init\<lparr>show_icon := 2, last_oc := 7\<rparr>) =
     Inr (?init\<lparr>show_icon := 2, last_oc := 7\<rparr>, [])"
    by simp
  from part1 part2 part3 show ?thesis by (intro conjI)
qed

subsection \<open>The shell probe\<close>

lemma getline_None: "getline s = None \<longleftrightarrow> s = []"
  by (cases s) (auto split: option.splits)

lemma NL_is_space: "g_ascii_isspace NL"
  by (simp add: g_ascii_isspace_def)

lemma cut_blank_spaces: "c_str (blank_spaces (l @ [NUL])) = cut_at_whitespace l"
  by (induction l) (simp_all add: c_str_def cut_at_whitespace_def)

lemma cut_getline:
  "getline s = Some (l, r) \<Longrightarrow> cut_at_whitespace l = cut_at_whitespace s"
proof (induction s arbitrary: l r)
  case Nil
  then show ?case by simp
next
  case (Cons c cs)
  show ?case
  proof (cases "c = NL")
    case True
    with Cons.prems show ?thesis by (auto simp: cut_at_whitespace_def NL_is_space)
  next
    case False
    show ?thesis
    proof (cases "getline cs")
      case None
      then have "cs = []" by (simp add: getline_None)
      with Cons.prems False None show ?thesis by simp
    next
      case (Some x)
      obtain l' r' where x: "x = (l', r')" by (cases x)
      from Cons.IH [of l' r'] Some x have "cut_at_whitespace l' = cut_at_whitespace cs" by simp
      with Cons.prems False Some x show ?thesis by (auto simp: cut_at_whitespace_def)
    qed
  qed
qed

lemma cut_first_line: "cut_at_whitespace (first_line s) = cut_at_whitespace s"
  by (induction s) (simp_all add: cut_at_whitespace_def first_line_def NL_is_space)

lemma get_string_value:
  "get_string e cmd =
     (case popen e cmd of
        None \<Rightarrow> None
      | Some out \<Rightarrow> if out = [] then None else Some (cut_at_whitespace (first_line out)))"
proof (cases "popen e cmd")
  case None
  then show ?thesis by (simp add: get_string_def)
next
  case (Some out)
  show ?thesis
  proof (cases "getline out")
    case None
    with Some show ?thesis by (simp add: get_string_def getline_None)
  next
    case line: (Some x)
    note gl = line
    obtain l r where x: "x = (l, r)" by (cases x)
    have "out \<noteq> []" using gl getline_None [of out] by auto
    with Some gl x show ?thesis
      by (simp add: get_string_def cut_blank_spaces cut_getline [of out l r] cut_first_line)
  qed
qed

lemma cut_is_strip:
  "\<forall>c \<in> set s. c \<noteq> NUL \<and> \<not> g_ascii_isspace c \<Longrightarrow> cut_at_whitespace s = strip_whitespace s"
  by (induction s) (simp_all add: cut_at_whitespace_def strip_whitespace_def)

text \<open>The probe does not strip all white space: it keeps what stands before the first.\<close>

theorem get_string_counterexample:
  "get_string (example_env [] [(TOTAL_MEM_CMD, ''2 048\<newline>'')]) TOTAL_MEM_CMD = Some ''2'' \<and>
   strip_whitespace (first_line ''2 048\<newline>'') = ''2048'' \<and>
   get_string (example_env [] [(TOTAL_MEM_CMD, ''2 048\<newline>'')]) TOTAL_MEM_CMD \<noteq>
     Some (strip_whitespace (first_line ''2 048\<newline>''))"
  by (simp add: get_string_value example_env_def first_line_def cut_at_whitespace_def
      strip_whitespace_def g_ascii_isspace_def)

text \<open>
  C9 (amended). The probe runs the command and takes the first line of its output, cut
  at the first white-space character (the line break at the latest) or NUL. It returns
  no value exactly when the pipeline does not launch or the output is empty. When the
  first line holds no white space and no NUL, the result is that line, which is also the
  line with all white space stripped. A result that does not parse downstream is no
  finding, never a fault: the memory check then emits nothing, a display probe leaves
  the maximum height as it was, and the memory check always returns.
\<close>

theorem get_string_contract:
  "get_string e cmd =
     (case popen e cmd of
        None \<Rightarrow> None
      | Some out \<Rightarrow> if out = [] then None else Some (cut_at_whitespace (first_line out))) \<and>
   (get_string e cmd = None \<longleftrightarrow> popen e cmd = None \<or> popen e cmd = Some []) \<and>
   (popen e cmd = Some out \<and> out \<noteq> [] \<and>
    (\<forall>c \<in> set (first_line out). c \<noteq> NUL \<and> \<not> g_ascii_isspace c) \<longrightarrow>
      get_string e cmd = Some (first_line out) \<and>
      get_string e cmd = Some (strip_whitespace (first_line out))) \<and>
   (get_string e TOTAL_MEM_CMD = Some res \<and> sscanf_d res = None \<longrightarrow>
      check_memres e pt = Inr (pt, [])) \<and>
   (get_string e cmd = Some res \<and> sscanf_dxd res = None \<longrightarrow> probe_height e cmd max_h = max_h) \<and>
   (\<exists>out. check_memres e pt = Inr (pt, out))"
proof (intro conjI impI)
  show "get_string e cmd =
     (case popen e cmd of
        None \<Rightarrow> None
      | Some out \<Rightarrow> if out = [] then None else Some (cut_at_whitespace (first_line out)))"
    by (rule get_string_value)
  show "get_string e cmd = None \<longleftrightarrow> popen e cmd = None \<or> popen e cmd = Some []"
    by (simp add: get_string_value split: option.splits)
  show "\<exists>out. check_memres e pt = Inr (pt, out)"
    by (rule check_memres_pure)
next
  assume a: "popen e cmd = Some out \<and> out \<noteq> [] \<and>
    (\<forall>c \<in> set (first_line out). c \<noteq> NUL \<and> \<not> g_ascii_isspace c)"
  then have cut: "cut_at_whitespace (first_line out) = first_line out"
    by (simp add: cut_at_whitespace_def)
  with a show "get_string e cmd = Some (first_line out)"
    by (simp add: get_string_value)
  from a cut cut_is_strip [of "first_line out"]
  show "get_string e cmd = Some (strip_whitespace (first_line out))"
    by (simp add: get_string_value)
next
  assume "get_string e TOTAL_MEM_CMD = Some res \<and> sscanf_d res = None"
  then show "check_memres e pt = Inr (pt, [])"
    by (simp add: check_memres_def)
next
  assume "get_string e cmd = Some res \<and> sscanf_dxd res = None"
  then show "probe_height e cmd max_h = max_h"
    by (simp add: probe_height_def)
qed

theorem get_string_contract_witness:
  "get_string (example_env [] [(TOTAL_MEM_CMD, ''2048\<newline>4096\<newline>'')]) TOTAL_MEM_CMD = Some ''2048'' \<and>
   strip_whitespace (first_line ''2048\<newline>4096\<newline>'') = ''2048'' \<and>
   get_string (example_env [] [(TOTAL_MEM_CMD, '''')]) TOTAL_MEM_CMD = None \<and>
   check_memres (example_env [] [(TOTAL_MEM_CMD, ''unknown\<newline>'')]) zeroed_context =
     Inr (zeroed_context, [])"
proof -
  let ?e = "example_env [] [(TOTAL_MEM_CMD, ''2048\<newline>4096\<newline>'')]"
  let ?eb = "example_env [] [(TOTAL_MEM_CMD, '''')]"
  let ?ec = "example_env [] [(TOTAL_MEM_CMD, ''unknown\<newline>'')]"
  have fl: "first_line ''2048\<newline>4096\<newline>'' = ''2048''" "first_line ''unknown\<newline>'' = ''unknown''"
    by (simp_all add: first_line_def)
  have p: "popen ?e TOTAL_MEM_CMD = Some ''2048\<newline>4096\<newline>''" "popen ?eb TOTAL_MEM_CMD = Some ''''"
    "popen ?ec TOTAL_MEM_CMD = Some ''unknown\<newline>''"
    by (simp_all add: example_env_def)
  have ok: "\<forall>c \<in> set (first_line ''2048\<newline>4096\<newline>''). c \<noteq> NUL \<and> \<not> g_ascii_isspace c"
    "\<forall>c \<in> set (first_line ''unknown\<newline>''). c \<noteq> NUL \<and> \<not> g_ascii_isspace c"
    by (simp_all add: fl g_ascii_isspace_def)
  note t1 = get_string_contract [of ?e TOTAL_MEM_CMD "''2048\<newline>4096\<newline>''" "''2048''" zeroed_context 0]
  note t0 = get_string_contract [of ?eb TOTAL_MEM_CMD "''''" "''''" zeroed_context 0]
  note tu = get_string_contract [of ?ec TOTAL_MEM_CMD "''unknown\<newline>''" "''unknown''" zeroed_context 0]
  have np: "sscanf_d ''unknown'' = None"
    by (simp add: sscanf_d_def scan_d_def isspace_def isdigit_def Let_def)
  have pre: "popen ?e TOTAL_MEM_CMD = Some ''2048\<newline>4096\<newline>'' \<and> ''2048\<newline>4096\<newline>'' \<noteq> [] \<and>
      (\<forall>c \<in> set (first_line ''2048\<newline>4096\<newline>''). c \<noteq> NUL \<and> \<not> g_ascii_isspace c)"
    using p(1) ok(1) by simp
  have preu: "popen ?ec TOTAL_MEM_CMD = Some ''unknown\<newline>'' \<and> ''unknown\<newline>'' \<noteq> [] \<and>
      (\<forall>c \<in> set (first_line ''unknown\<newline>''). c \<noteq> NUL \<and> \<not> g_ascii_isspace c)"
    using p(3) ok(2) by simp
  note a = t1 [THEN conjunct2, THEN conjunct2, THEN conjunct1, THEN mp, OF pre]
  from a have a1: "get_string ?e TOTAL_MEM_CMD = Some ''2048''"
    by (simp only: fl)
  have a2: "strip_whitespace (first_line ''2048\<newline>4096\<newline>'') = ''2048''"
    by (simp add: fl strip_whitespace_def g_ascii_isspace_def)
  from t0 [THEN conjunct2, THEN conjunct1] p(2)
  have b: "get_string ?eb TOTAL_MEM_CMD = None" by simp
  from tu [THEN conjunct2, THEN conjunct2, THEN conjunct1, THEN mp, OF preu]
  have "get_string ?ec TOTAL_MEM_CMD = Some ''unknown''" by (simp only: fl)
  with np have "get_string ?ec TOTAL_MEM_CMD = Some ''unknown'' \<and> sscanf_d ''unknown'' = None"
    by simp
  from tu [THEN conjunct2, THEN conjunct2, THEN conjunct2, THEN conjunct1, THEN mp, OF this]
  have c: "check_memres ?ec zeroed_context = Inr (zeroed_context, [])" .
  from a1 a2 b c show ?thesis by (intro conjI)
qed

subsection \<open>The memory and resolution check\<close>

lemma sint_probe_height:
  "sint (probe_height e cmd max_h) =
     (case get_string e cmd of
        None \<Rightarrow> sint max_h
      | Some res \<Rightarrow> (case sscanf_dxd res of None \<Rightarrow> sint max_h | Some (w, h) \<Rightarrow> max (sint max_h) (sint h)))"
  by (auto simp: probe_height_def split: option.splits)

lemma sint_max_h:
  "sint (probe_height e HDMI_A_2_CMD (probe_height e HDMI_A_1_CMD 0)) = max_height e"
  by (simp add: sint_probe_height max_height_def probed_heights_def max.commute
      split: option.splits)

text \<open>
  C8. With the memory probe giving a value mem that parses, the check emits exactly one
  Advisory when 256 <= mem <= 2048 and the largest probed display height exceeds 1200,
  and nothing otherwise. A display probe that gives no data or does not parse does not
  count towards the largest height; a memory probe that gives no data or does not parse
  ends the check with nothing emitted. The context is never changed.
\<close>

theorem check_memres_contract:
  "(get_string e TOTAL_MEM_CMD = Some res \<and> sscanf_d res = Some mem \<longrightarrow>
      check_memres e pt =
        Inr (pt, if 256 \<le> sint mem \<and> sint mem \<le> 2048 \<and> 1200 < max_height e
                 then [Notify MEMRES_MESSAGE] else [])) \<and>
   (get_string e TOTAL_MEM_CMD = None \<longrightarrow> check_memres e pt = Inr (pt, [])) \<and>
   (get_string e TOTAL_MEM_CMD = Some res \<and> sscanf_d res = None \<longrightarrow>
      check_memres e pt = Inr (pt, [])) \<and>
   advisories [Notify MEMRES_MESSAGE] = [MEMRES_MESSAGE]"
proof (intro conjI impI)
  assume "get_string e TOTAL_MEM_CMD = Some res \<and> sscanf_d res = Some mem"
  then show "check_memres e pt =
        Inr (pt, if 256 \<le> sint mem \<and> sint mem \<le> 2048 \<and> 1200 < max_height e
                 then [Notify MEMRES_MESSAGE] else [])"
    using sint_max_h [of e]
    by (auto simp: check_memres_def Let_def)
next
  assume "get_string e TOTAL_MEM_CMD = None"
  then show "check_memres e pt = Inr (pt, [])" by (simp add: check_memres_def)
next
  assume "get_string e TOTAL_MEM_CMD = Some res \<and> sscanf_d res = None"
  then show "check_memres e pt = Inr (pt, [])" by (simp add: check_memres_def)
next
  show "advisories [Notify MEMRES_MESSAGE] = [MEMRES_MESSAGE]" by (simp add: advisories_def)
qed

lemma display_env_probes:
  "get_string (display_env ''2048\<newline>'' mode) TOTAL_MEM_CMD = Some ''2048''"
  "get_string (display_env ''2049\<newline>'' mode) TOTAL_MEM_CMD = Some ''2049''"
  "get_string (display_env ''255\<newline>'' mode) TOTAL_MEM_CMD = Some ''255''"
  "sscanf_d ''2048'' = Some 2048" "sscanf_d ''2049'' = Some 2049" "sscanf_d ''255'' = Some 255"
  by (simp_all add: display_env_def example_env_def get_string_value first_line_def
      cut_at_whitespace_def g_ascii_isspace_def sscanf_d_def scan_d_def isspace_def isdigit_def
      store_int_def Let_def)

lemma display_env_heights:
  "max_height (display_env mem ''1920x1201\<newline>'') = 1201"
  "max_height (display_env mem ''1920x1200\<newline>'') = 1200"
  by (simp_all add: max_height_def probed_heights_def display_env_def example_env_def
      get_string_value first_line_def cut_at_whitespace_def g_ascii_isspace_def
      sscanf_dxd_def scan_d_def isspace_def isdigit_def store_int_def Let_def)

theorem check_memres_contract_witness:
  "check_memres (display_env ''2048\<newline>'' ''1920x1201\<newline>'') zeroed_context =
     Inr (zeroed_context, [Notify MEMRES_MESSAGE]) \<and>
   check_memres (display_env ''2048\<newline>'' ''1920x1200\<newline>'') zeroed_context = Inr (zeroed_context, []) \<and>
   check_memres (display_env ''2049\<newline>'' ''1920x1201\<newline>'') zeroed_context = Inr (zeroed_context, []) \<and>
   check_memres (display_env ''255\<newline>'' ''1920x1201\<newline>'') zeroed_context = Inr (zeroed_context, [])"
proof -
  note t = check_memres_contract [THEN conjunct1, THEN mp, OF conjI]
  have a: "check_memres (display_env ''2048\<newline>'' ''1920x1201\<newline>'') zeroed_context =
     Inr (zeroed_context, [Notify MEMRES_MESSAGE])"
    using t [OF display_env_probes(1) display_env_probes(4), of "''1920x1201\<newline>''" zeroed_context]
    by (simp add: display_env_heights)
  have b: "check_memres (display_env ''2048\<newline>'' ''1920x1200\<newline>'') zeroed_context = Inr (zeroed_context, [])"
    using t [OF display_env_probes(1) display_env_probes(4), of "''1920x1200\<newline>''" zeroed_context]
    by (simp add: display_env_heights)
  have c: "check_memres (display_env ''2049\<newline>'' ''1920x1201\<newline>'') zeroed_context = Inr (zeroed_context, [])"
    using t [OF display_env_probes(2) display_env_probes(5), of "''1920x1201\<newline>''" zeroed_context]
    by (simp add: display_env_heights)
  have d: "check_memres (display_env ''255\<newline>'' ''1920x1201\<newline>'') zeroed_context = Inr (zeroed_context, [])"
    using t [OF display_env_probes(3) display_env_probes(6), of "''1920x1201\<newline>''" zeroed_context]
    by (simp add: display_env_heights)
  from a b c d show ?thesis by (intro conjI)
qed

subsection \<open>Tear-down\<close>

lemma unref_case: "unref f x = map f (case_option [] (\<lambda>x. [x]) x)"
  by (cases x) simp_all

lemma power_destructor_live:
  "h p = Some pt \<Longrightarrow>
   power_destructor h p = Inr (h(p := None), live_handles pt @ [Free p])"
  by (simp add: power_destructor_def live_handles_def Let_def unref_case word_gt_0)

lemma startup_checks_fields:
  assumes "startup_checks e pt = Inr (pt', out)"
  shows "pt' = pt\<lparr>show_icon := show_icon pt', startup_id := 0\<rparr>"
proof -
  from assms obtain p1 p2 p3 p4 o1 o2 o3 o4 where
    s: "check_psu e pt = Inr (p1, o1)" "check_brownout e p1 = Inr (p2, o2)"
    "check_memres e p2 = Inr (p3, o3)" "check_user_warnings e p3 = Inr (p4, o4)"
    "pt' = p4\<lparr>startup_id := 0\<rparr>"
    by (auto simp: startup_checks_def and_then_Inr)
  from s(1) check_psu_pure [of e pt] have "p1 = pt" by auto
  moreover from s(3) check_memres_pure [of e p2] have "p3 = p2" by auto
  moreover from s(4) check_user_warnings_pure [of e p3] have "p4 = p3" by auto
  moreover from s(2) have "p2 = p1\<lparr>show_icon := show_icon p2\<rparr>"
    by (auto simp: check_brownout_cases split: option.splits if_splits)
  ultimately show ?thesis using s(5) by simp
qed

text \<open>A second call on the same context finds it freed.\<close>

theorem power_destructor_twice_counterexample:
  "(case power_destructor (Map.empty(0 \<mapsto> power_init example_init zeroed_context)) 0 of
      Inl f \<Rightarrow> False
    | Inr (h', released) \<Rightarrow> h' 0 = None \<and> power_destructor h' 0 = Inl UseAfterFree)"
  by (simp add: power_destructor_def Let_def)

text \<open>
  C5 (amended). A call of the destructor on an allocated context is safe whichever
  handles the context holds: it removes each registered source whose id is not 0,
  unreferences each subscription and the event source that is not NULL, each once and
  in that order, and then frees the context, which is no longer allocated afterwards.
  A context set up on other hardware holds no handle, and only the context is freed.
  Once the startup task has run it has cleared its id, and the destructor does not
  remove that source. The destructor is not to be called again on the freed context.
\<close>

theorem power_destructor_once:
  "(h p = Some pt \<longrightarrow>
      power_destructor h p = Inr (h(p := None), live_handles pt @ [Free p])) \<and>
   (\<not> is_pi ie \<longrightarrow> live_handles (power_init ie pt0) = []) \<and>
   (startup_checks e pt = Inr (pt', out) \<longrightarrow>
      startup_id pt' = 0 \<and>
      live_handles pt' =
        map SourceRemove (filter (\<lambda>i. i \<noteq> 0) [overcurrent_id pt, lowvoltage_id pt]) @
        map MonitorUnref (concat (map (case_option [] (\<lambda>x. [x])) [udev_mon_oc pt, udev_mon_lv pt])) @
        map UdevUnref (case_option [] (\<lambda>x. [x]) (udev pt)))"
proof (intro conjI impI)
  assume "h p = Some pt"
  then show "power_destructor h p = Inr (h(p := None), live_handles pt @ [Free p])"
    by (rule power_destructor_live)
next
  assume "\<not> is_pi ie"
  then show "live_handles (power_init ie pt0) = []"
    by (simp add: power_init_def live_handles_def)
next
  assume a: "startup_checks e pt = Inr (pt', out)"
  from startup_checks_fields [OF a]
  have f: "pt' = pt\<lparr>show_icon := show_icon pt', startup_id := 0\<rparr>" .
  then show "startup_id pt' = 0"
    by (metis PowerPlugin.select_convs(8) PowerPlugin.surjective PowerPlugin.update_convs(1) PowerPlugin.update_convs(8))
  have "live_handles (pt\<lparr>show_icon := show_icon pt', startup_id := 0\<rparr>) =
        map SourceRemove (filter (\<lambda>i. i \<noteq> 0) [overcurrent_id pt, lowvoltage_id pt]) @
        map MonitorUnref (concat (map (case_option [] (\<lambda>x. [x])) [udev_mon_oc pt, udev_mon_lv pt])) @
        map UdevUnref (case_option [] (\<lambda>x. [x]) (udev pt))"
    by (simp add: live_handles_def)
  with f show "live_handles pt' =
        map SourceRemove (filter (\<lambda>i. i \<noteq> 0) [overcurrent_id pt, lowvoltage_id pt]) @
        map MonitorUnref (concat (map (case_option [] (\<lambda>x. [x])) [udev_mon_oc pt, udev_mon_lv pt])) @
        map UdevUnref (case_option [] (\<lambda>x. [x]) (udev pt))"
    by simp
qed

theorem power_destructor_once_witness:
  "power_destructor (Map.empty(0 \<mapsto> power_init example_init zeroed_context)) 0 =
     Inr (Map.empty(0 \<mapsto> power_init example_init zeroed_context, 0 := None),
          [SourceRemove 11, SourceRemove 12, SourceRemove 13, MonitorUnref 2, MonitorUnref 3,
           UdevUnref 1, Free 0]) \<and>
   power_destructor (Map.empty(0 \<mapsto> power_init (example_init\<lparr>is_pi := False\<rparr>) zeroed_context)) 0 =
     Inr (Map.empty(0 \<mapsto> power_init (example_init\<lparr>is_pi := False\<rparr>) zeroed_context, 0 := None),
          [Free 0])"
proof -
  let ?h = "Map.empty(0 \<mapsto> power_init example_init zeroed_context)"
  let ?g = "Map.empty(0 \<mapsto> power_init (example_init\<lparr>is_pi := False\<rparr>) zeroed_context)"
  have a: "?h 0 = Some (power_init example_init zeroed_context)" by simp
  have b: "?g 0 = Some (power_init (example_init\<lparr>is_pi := False\<rparr>) zeroed_context)" by simp
  have la: "live_handles (power_init example_init zeroed_context) =
      [SourceRemove 11, SourceRemove 12, SourceRemove 13, MonitorUnref 2, MonitorUnref 3, UdevUnref 1]"
    by (simp add: live_handles_def power_init_def example_init_def Let_def)
  have lb: "live_handles (power_init (example_init\<lparr>is_pi := False\<rparr>) zeroed_context) = []"
    by (simp add: live_handles_def power_init_def example_init_def Let_def zeroed_context_def)
  from power_destructor_once [where h = ?h and p = 0
        and pt = "power_init example_init zeroed_context", THEN conjunct1, THEN mp, OF a]
    power_destructor_once [where h = ?g and p = 0
        and pt = "power_init (example_init\<lparr>is_pi := False\<rparr>) zeroed_context",
        THEN conjunct1, THEN mp, OF b]
  show ?thesis by (simp only: la lb) simp
qed

subsection \<open>Faults\<close>

lemma only_flags_or:
  "only_flags w \<Longrightarrow> m = 1 \<or> m = 2 \<or> m = 4 \<Longrightarrow> only_flags (w OR m)"
  by (auto simp: only_flags_def bit.conj_disj_distrib2)

lemma only_flags_0: "only_flags 0"
  by (simp add: only_flags_def)

lemma update_icon_total:
  assumes "only_flags (show_icon pt)"
  shows "\<exists>out. update_icon pt = Inr out"
proof (cases "tooltip_concat (show_icon pt) = []")
  case False
  then show ?thesis by (simp add: update_icon_shown)
next
  case True
  then have "show_icon pt AND 7 = 0"
    by (simp add: tooltip_concat_empty and_7_split)
  with assms have "show_icon pt = 0" by (simp add: only_flags_def)
  then show ?thesis by (simp add: update_icon_hidden)
qed

lemma cb_overcurrent_fd_fault:
  "cb_overcurrent_fd e received pt = Inl f \<Longrightarrow>
   f = NullPointer \<and> (\<exists>dev. received = Some dev \<and> property_value dev ''OVER_CURRENT_COUNT'' = None)"
  by (auto simp: cb_overcurrent_fd_def Let_def update_icon_flag split: option.splits if_splits)

lemma cb_lowvoltage_fd_total: "cb_lowvoltage_fd e received pt \<noteq> Inl f"
  by (auto simp: cb_lowvoltage_fd_def Let_def update_icon_flag split: option.splits if_splits)

lemma check_brownout_total: "check_brownout e pt \<noteq> Inl f"
  by (simp add: check_brownout_cases split: option.splits)

lemma and_then_Inl:
  "and_then r g = Inl f \<longleftrightarrow> r = Inl f \<or> (\<exists>pt out. r = Inr (pt, out) \<and> g pt = Inl f)"
  by (auto simp: and_then_def split: sum.splits prod.splits)

lemma check_psu_total: "check_psu e pt \<noteq> Inl f"
  using check_psu_pure [of e pt] by auto

lemma check_memres_total: "check_memres e pt \<noteq> Inl f"
  using check_memres_pure [of e pt] by auto

lemma check_user_warnings_total: "check_user_warnings e pt \<noteq> Inl f"
  using check_user_warnings_pure [of e pt] by auto

lemma startup_checks_total: "startup_checks e pt \<noteq> Inl f"
  by (simp add: startup_checks_def and_then_Inl check_psu_total check_brownout_total
      check_memres_total check_user_warnings_total)

lemma perform_fault:
  assumes "perform e op pt = Inl f"
  shows "(f = NullPointer \<and> \<not> has_count (e, op)) \<or> (f = OutOfBounds \<and> \<not> only_flags (show_icon pt))"
proof (cases op)
  case (OvercurrentEvent received)
  with assms cb_overcurrent_fd_fault [of e received pt f] show ?thesis by auto
next
  case UpdateDisplay
  with assms update_icon_total [of pt] show ?thesis
    by (auto simp: power_update_display_def update_icon_def Let_def split: sum.splits if_splits)
qed (use assms cb_lowvoltage_fd_total startup_checks_total check_brownout_total
      check_psu_total check_memres_total check_user_warnings_total in auto)

lemma perform_only_flags:
  assumes "only_flags (show_icon pt)" and "perform e op pt = Inr (pt', out)"
  shows "only_flags (show_icon pt')"
proof -
  have brown: "check_brownout e p = Inr (p', o') \<Longrightarrow> only_flags (show_icon p) \<Longrightarrow>
      only_flags (show_icon p')" for p p' o'
    by (auto simp: check_brownout_cases only_flags_or split: option.splits if_splits)
  show ?thesis
  proof (cases op)
    case (OvercurrentEvent received)
    with assms show ?thesis
      by (auto simp: cb_overcurrent_fd_def Let_def update_icon_flag only_flags_or
          split: option.splits if_splits)
  next
    case (LowvoltageEvent received)
    with assms show ?thesis
      by (auto simp: cb_lowvoltage_fd_def Let_def update_icon_flag only_flags_or
          split: option.splits if_splits)
  next
    case StartupChecks
    with assms(2) have "startup_checks e pt = Inr (pt', out)" by simp
    then obtain p1 p2 p3 p4 o1 o2 o3 o4 where
      s: "check_psu e pt = Inr (p1, o1)" "check_brownout e p1 = Inr (p2, o2)"
      "check_memres e p2 = Inr (p3, o3)" "check_user_warnings e p3 = Inr (p4, o4)"
      "pt' = p4\<lparr>startup_id := 0\<rparr>"
      by (auto simp: startup_checks_def and_then_Inr)
    from s(1) check_psu_pure [of e pt] have "p1 = pt" by auto
    with brown [OF s(2)] assms(1) have "only_flags (show_icon p2)" by simp
    moreover from s(3) check_memres_pure [of e p2] have "p3 = p2" by auto
    moreover from s(4) check_user_warnings_pure [of e p3] have "p4 = p3" by auto
    ultimately show ?thesis using s(5) by simp
  next
    case CheckPsu
    with assms check_psu_pure [of e pt] show ?thesis by auto
  next
    case CheckBrownout
    with assms brown [of pt pt' out] show ?thesis by simp
  next
    case CheckMemres
    with assms check_memres_pure [of e pt] show ?thesis by auto
  next
    case CheckUserWarnings
    with assms check_user_warnings_pure [of e pt] show ?thesis by auto
  next
    case UpdateDisplay
    with assms show ?thesis by (auto simp: power_update_display_def split: sum.splits)
  qed
qed

lemma run_fault:
  "only_flags (show_icon pt) \<Longrightarrow> run ops pt = Inl f \<Longrightarrow>
   f = NullPointer \<and> \<not> list_all has_count ops"
proof (induction ops arbitrary: pt)
  case Nil
  then show ?case by simp
next
  case (Cons x ops)
  obtain e op where x: "x = (e, op)" by (cases x)
  from Cons.prems(2) have "perform e op pt = Inl f \<or>
      (\<exists>p1 o1. perform e op pt = Inr (p1, o1) \<and> run ops p1 = Inl f)"
    by (simp add: x and_then_Inl)
  then show ?case
  proof
    assume "perform e op pt = Inl f"
    from perform_fault [OF this] Cons.prems(1) show ?thesis by (simp add: x)
  next
    assume "\<exists>p1 o1. perform e op pt = Inr (p1, o1) \<and> run ops p1 = Inl f"
    then obtain p1 o1 where s: "perform e op pt = Inr (p1, o1)" "run ops p1 = Inl f" by blast
    from perform_only_flags [OF Cons.prems(1) s(1)] have "only_flags (show_icon p1)" .
    from Cons.IH [OF this s(2)] show ?thesis by simp
  qed
qed

lemma run_returns:
  assumes "only_flags (show_icon pt)" and "list_all has_count ops"
  shows "\<exists>pt' out. run ops pt = Inr (pt', out)"
proof (cases "run ops pt")
  case (Inl f)
  from run_fault [OF assms(1) Inl] assms(2) show ?thesis by simp
next
  case (Inr r)
  then show ?thesis by (cases r) simp
qed

lemma power_init_only_flags: "only_flags (show_icon (power_init ie pt0))"
  by (simp add: power_init_def Let_def only_flags_0)

lemma no_out_of_bounds: "run ops (power_init ie pt0) \<noteq> Inl OutOfBounds"
  using run_fault [OF power_init_only_flags, of ops ie pt0 OutOfBounds] by auto

text \<open>
  C3. Whatever operations run on a context after its set-up (device events on either
  channel, the startup task or any single startup check, a redraw), in whatever order
  and whatever the world looks like at each of them, every bit of the flag word that
  was set before is set after: the hazard flags after are a superset of those before.
  Such a run does return when the flag word holds hazard bits only, as it does from
  set-up on, and every overcurrent event carries its counter property.
\<close>

theorem flags_are_sticky:
  "(run ops pt = Inr (pt', out) \<longrightarrow>
      hazards pt \<subseteq> hazards pt' \<and> show_icon pt' AND show_icon pt = show_icon pt) \<and>
   (only_flags (show_icon pt) \<and> list_all has_count ops \<longrightarrow>
      (\<exists>pt' out. run ops pt = Inr (pt', out)))"
  using run_sticky [of ops pt pt' out] hazards_mono [of pt' pt] run_returns [of pt ops]
  by simp

theorem flags_are_sticky_witness:
  "run [(example_env [(''/sys/class/hwmon/hwmon3/in0_lcrit_alarm'', ''1\<newline>'')] [],
         LowvoltageEvent (Some (example_device ''change'' ''hwmon3'' ''/sys/class/hwmon/hwmon3'' []))),
        (example_env [(''/sys/class/hwmon/hwmon3/in0_lcrit_alarm'', ''0\<newline>'')] [],
         LowvoltageEvent (Some (example_device ''change'' ''hwmon3'' ''/sys/class/hwmon/hwmon3'' []))),
        (example_env [] [], StartupChecks)]
     (power_init example_init zeroed_context) =
     Inr (power_init example_init zeroed_context\<lparr>show_icon := 1, startup_id := 0\<rparr>,
       [Critical LV_MESSAGE, SetTaskbarIcon ''under-volt'', SetSensitive True, ShowAll,
        SetTooltip ''PSU low voltage detected''])
   \<and> hazards (power_init example_init zeroed_context) \<subseteq>
       hazards (power_init example_init zeroed_context\<lparr>show_icon := 1, startup_id := 0\<rparr>)"
proof -
  let ?ops = "[(example_env [(''/sys/class/hwmon/hwmon3/in0_lcrit_alarm'', ''1\<newline>'')] [],
         LowvoltageEvent (Some (example_device ''change'' ''hwmon3'' ''/sys/class/hwmon/hwmon3'' []))),
        (example_env [(''/sys/class/hwmon/hwmon3/in0_lcrit_alarm'', ''0\<newline>'')] [],
         LowvoltageEvent (Some (example_device ''change'' ''hwmon3'' ''/sys/class/hwmon/hwmon3'' []))),
        (example_env [] [], StartupChecks)]"
  have r: "run ?ops (power_init example_init zeroed_context) =
     Inr (power_init example_init zeroed_context\<lparr>show_icon := 1, startup_id := 0\<rparr>,
       [Critical LV_MESSAGE, SetTaskbarIcon ''under-volt'', SetSensitive True, ShowAll,
        SetTooltip ''PSU low voltage detected''])"
    by (simp add: and_then_def cb_lowvoltage_fd_def example_env_def example_device_def
        power_init_def example_init_def zeroed_context_def Let_def update_icon_def
        tooltip_concat_def c_str_def startup_checks_def check_psu_def check_brownout_def
        check_memres_def check_user_warnings_def read_be_u32_def get_string_def eval_nat_numeral)
  from flags_are_sticky [THEN conjunct1, THEN mp, OF r] r show ?thesis by simp
qed

text \<open>
  C10. When at least one of the three hazard flags is set, the concatenated tooltip is
  not empty and ends in a line break, so index length - 1 is inside the string and the
  write there removes exactly that line break: the tooltip shown is the concatenation
  without its last character. With no flag set the icon is hidden and the truncation
  is not reached. No run of operations from set-up ever writes before the buffer: the
  flag word then holds hazard bits only, so it is zero or the tooltip is not empty.
\<close>

theorem tooltip_truncation_safe:
  "(show_icon pt AND (ICON_LOW_VOLTAGE OR ICON_OVER_CURRENT OR ICON_BROWNOUT) \<noteq> 0 \<longrightarrow>
      tooltip_concat (show_icon pt) \<noteq> [] \<and>
      last (tooltip_concat (show_icon pt)) = NL \<and>
      length (tooltip_concat (show_icon pt)) - 1 < length (tooltip_concat (show_icon pt)) \<and>
      update_icon pt =
        Inr [SetTaskbarIcon ''under-volt'', SetSensitive True, ShowAll,
             SetTooltip (butlast (tooltip_concat (show_icon pt)))]) \<and>
   (show_icon pt = 0 \<longrightarrow>
      update_icon pt = Inr [SetTaskbarIcon ''under-volt'', SetSensitive False, Hide]) \<and>
   run ops (power_init ie pt0) \<noteq> Inl OutOfBounds"
proof (intro conjI impI)
  assume "show_icon pt AND (ICON_LOW_VOLTAGE OR ICON_OVER_CURRENT OR ICON_BROWNOUT) \<noteq> 0"
  then have "show_icon pt AND 7 \<noteq> 0" by simp
  from some_flag [OF this] show ne: "tooltip_concat (show_icon pt) \<noteq> []"
    by (auto simp: tooltip_concat_empty)
  from ne show "last (tooltip_concat (show_icon pt)) = NL" by (rule tooltip_concat_last)
  from ne show "length (tooltip_concat (show_icon pt)) - 1 < length (tooltip_concat (show_icon pt))"
    by (cases "tooltip_concat (show_icon pt)") simp_all
  from ne show "update_icon pt =
        Inr [SetTaskbarIcon ''under-volt'', SetSensitive True, ShowAll,
             SetTooltip (butlast (tooltip_concat (show_icon pt)))]"
    by (rule update_icon_shown)
next
  assume "show_icon pt = 0"
  then show "update_icon pt = Inr [SetTaskbarIcon ''under-volt'', SetSensitive False, Hide]"
    by (rule update_icon_hidden)
next
  show "run ops (power_init ie pt0) \<noteq> Inl OutOfBounds"
    by (rule no_out_of_bounds)
qed

theorem tooltip_truncation_safe_witness:
  "update_icon \<lparr>show_icon = 6, last_oc = 7, udev = None, udev_mon_oc = None, udev_mon_lv = None,
      overcurrent_id = 0, lowvoltage_id = 0, startup_id = 0\<rparr> =
     Inr [SetTaskbarIcon ''under-volt'', SetSensitive True, ShowAll,
          SetTooltip ''USB over current detected\<newline>Low power reset has occurred'']
   \<and> update_icon \<lparr>show_icon = 0, last_oc = 7, udev = None, udev_mon_oc = None, udev_mon_lv = None,
      overcurrent_id = 0, lowvoltage_id = 0, startup_id = 0\<rparr> =
     Inr [SetTaskbarIcon ''under-volt'', SetSensitive False, Hide]"
  using tooltip_truncation_safe [of "\<lparr>show_icon = 6, last_oc = 7, udev = None, udev_mon_oc = None, udev_mon_lv = None,
      overcurrent_id = 0, lowvoltage_id = 0, startup_id = 0\<rparr>"]
    tooltip_truncation_safe [of "\<lparr>show_icon = 0, last_oc = 7, udev = None, udev_mon_oc = None, udev_mon_lv = None,
      overcurrent_id = 0, lowvoltage_id = 0, startup_id = 0\<rparr>"]
  by (simp add: tooltip_concat_def)

end
